theory Spec2Isabelle
  imports Complex_Main "HOL-Library.Multiset" "HOL-Library.Sublist" "HOL-Library.Log_Nat"
begin

section \<open>Data model\<close>

text \<open>
  Rows of the tables \<open>inventory_batches\<close> and \<open>products\<close> (app/models), restricted to
  the columns the two services read or write. Python integers are \<open>int\<close>; a
  \<open>date\<close> is the number of its day (so that \<open>(d1 - d2).days\<close> is \<open>d1 - d2\<close>); a
  \<open>Decimal\<close> price is an exact rational. A table is the list of its rows in the order
  in which a scan of the table returns them; \<open>id\<close> is the primary key of each table.
\<close>

record batch =
  batch_id :: int
  product_id :: int
  batch_number :: string
  current_quantity :: int
  reserved_quantity :: int
  selling_price_per_unit :: rat
  expiry_date :: int
  is_active :: bool
  is_expired :: bool

record product =
  p_id :: int
  p_name :: string
  p_is_active :: bool
  is_controlled_substance :: bool

datatype MovementType = PURCHASE | SALE | ADJUSTMENT | RETURN | EXPIRED | DAMAGED | TRANSFER

text \<open>
  A \<open>StockMovement\<close> row as \<open>record_stock_movement\<close> builds it; the free-text
  \<open>notes\<close> and the \<open>unit_cost\<close> column are left out.
\<close>

record movement =
  m_product_id :: int
  m_batch_id :: int
  m_quantity :: int
  m_type :: MovementType
  m_user_id :: int
  m_reference :: "string option"

text \<open>One line of the list of dicts that \<open>reserve_stock\<close> returns.\<close>

record reservation =
  r_batch_id :: int
  r_batch_number :: string
  r_quantity :: int
  r_unit_price :: rat
  r_expiry_date :: int

text \<open>The expiry thresholds of \<open>Settings\<close> (app/config.py), with their defaults.\<close>

record settings =
  expiry_alert_6_months :: int
  expiry_alert_3_months :: int
  expiry_alert_1_month :: int
  expiry_alert_1_week :: int

definition default_settings :: settings where
  "default_settings =
     \<lparr>expiry_alert_6_months = 180, expiry_alert_3_months = 90,
      expiry_alert_1_month = 30, expiry_alert_1_week = 7\<rparr>"

datatype ExpiryAlertLevel = CRITICAL | HIGH | MEDIUM | LOW | INFO

section \<open>Expiry service: classification and recommended action\<close>

definition calculate_alert_level :: "settings \<Rightarrow> int \<Rightarrow> ExpiryAlertLevel" where
  "calculate_alert_level s days_until_expiry =
     (if days_until_expiry \<le> expiry_alert_1_week s then CRITICAL
      else if days_until_expiry \<le> expiry_alert_1_month s then HIGH
      else if days_until_expiry \<le> expiry_alert_3_months s then MEDIUM
      else if days_until_expiry \<le> expiry_alert_6_months s then LOW
      else INFO)"

fun get_recommended_action :: "int \<Rightarrow> int \<Rightarrow> ExpiryAlertLevel \<Rightarrow> string" where
  "get_recommended_action days_until_expiry quantity CRITICAL =
     (if quantity > 50 then ''URGENT: Consider bulk discount sale or return to supplier''
      else ''URGENT: Prioritize sale or mark for disposal'')"
| "get_recommended_action days_until_expiry quantity HIGH =
     (if quantity > 100 then ''Implement promotional pricing or contact supplier for return''
      else ''Prioritize in sales recommendations'')"
| "get_recommended_action days_until_expiry quantity MEDIUM =
     ''Monitor closely and consider promotional strategies''"
| "get_recommended_action days_until_expiry quantity LOW =
     ''Plan inventory rotation and adjust reorder quantities''"
| "get_recommended_action days_until_expiry quantity INFO =
     ''Monitor for future planning''"

text \<open>
  A Python \<open>float\<close> is an IEEE-754 double. The doubles are embedded in the rationals,
  and every float operation of the source is the exact operation followed by
  \<open>to_double\<close>, the rounding to the nearest double, ties to the even significand
  (53 bits). Exponents are unbounded here: overflow to infinity and the subnormal
  numbers (magnitudes above about \<open>1.8e308\<close> or below about \<open>2.2e-308\<close>) are outside
  the model. \<open>binade x\<close> is the exponent \<open>e\<close> with \<open>2^e \<le> x < 2^(e + 1)\<close>.
\<close>

definition round_half_even :: "rat \<Rightarrow> int" where
  "round_half_even x =
     (let n = \<lfloor>x\<rfloor>; d = x - of_int n
      in if d < 1 / 2 then n else if 1 / 2 < d then n + 1 else if even n then n else n + 1)"

definition binade :: "rat \<Rightarrow> int" where
  "binade x = (if 1 \<le> x then bitlen \<lfloor>x\<rfloor> - 1 else - bitlen (\<lceil>1 / x\<rceil> - 1))"

definition to_double :: "rat \<Rightarrow> rat" where
  "to_double x =
     (if x = 0 then 0
      else let u = 2 powi (binade \<bar>x\<bar> - 52)
           in sgn x * of_int (round_half_even (\<bar>x\<bar> / u)) * u)"

text \<open>
  \<open>round(x, 3)\<close> on a float: the decimal with three places nearest to the value of
  \<open>x\<close> (ties to even), converted back to a double.
\<close>

definition py_round3 :: "rat \<Rightarrow> rat" where
  "py_round3 x = to_double (of_int (round_half_even (x * 1000)) / 1000)"

text \<open>
  \<open>_calculate_priority_score\<close>, operation by operation. \<open>unit_value\<close> is a float
  already; the integer \<open>quantity\<close> is converted to a float where it meets one; the
  literals \<open>0.5\<close>, \<open>1.0\<close> and \<open>1.5\<close> are doubles, \<open>0.3\<close> and \<open>0.2\<close> are rounded.
  A division of two integers is the correctly rounded quotient.
\<close>

definition calculate_priority_score :: "int \<Rightarrow> int \<Rightarrow> rat \<Rightarrow> bool \<Rightarrow> rat" where
  "calculate_priority_score days_until_expiry quantity unit_value is_controlled =
     (let urgency_score = to_double (of_int (max 0 (365 - days_until_expiry)) / 365);
          total_value = to_double (to_double (of_int quantity) * unit_value);
          value_score = min (to_double (total_value / 1000)) 1;
          quantity_score = min (to_double (of_int quantity / 100)) 1;
          controlled_multiplier = (if is_controlled then 3 / 2 else 1);
          priority_score =
            to_double
              (to_double
                 (to_double (to_double (urgency_score * (1 / 2))
                             + to_double (value_score * to_double (3 / 10)))
                  + to_double (quantity_score * to_double (1 / 5)))
               * controlled_multiplier)
      in py_round3 priority_score)"

record ExpiryAlert =
  a_batch_id :: int
  a_product_id :: int
  a_product_name :: string
  a_batch_number :: string
  a_current_quantity :: int
  a_expiry_date :: int
  days_until_expiry :: int
  alert_level :: ExpiryAlertLevel
  estimated_value :: rat
  recommended_action :: string
  priority_score :: rat

text \<open>
  \<open>select(InventoryBatch, Product).join(Product)\<close>: every batch paired with the
  product row its foreign key \<open>product_id\<close> names.
\<close>

definition join_product :: "batch list \<Rightarrow> product list \<Rightarrow> (batch \<times> product) list" where
  "join_product db products =
     concat (map (\<lambda>b. map (Pair b) (filter (\<lambda>p. p_id p = product_id b) products)) db)"

definition make_alert :: "settings \<Rightarrow> int \<Rightarrow> batch \<times> product \<Rightarrow> ExpiryAlert" where
  "make_alert s today row =
     (let b = fst row; p = snd row;
          days = expiry_date b - today;
          level = calculate_alert_level s days
      in \<lparr>a_batch_id = batch_id b, a_product_id = p_id p, a_product_name = p_name p,
          a_batch_number = batch_number b, a_current_quantity = current_quantity b,
          a_expiry_date = expiry_date b, days_until_expiry = days, alert_level = level,
          estimated_value = to_double (of_int (current_quantity b) * selling_price_per_unit b),
          recommended_action = get_recommended_action days (current_quantity b) level,
          priority_score =
            calculate_priority_score days (current_quantity b)
              (to_double (selling_price_per_unit b)) (is_controlled_substance p)\<rparr>)"

text \<open>
  The order in which the query of \<open>get_expiry_alerts\<close> returns its rows. The query
  has no \<open>ORDER BY\<close>. With \<open>include_expired\<close> it has no condition on an indexed
  column and the rows come by a scan of the table, in table order. Without it the
  condition \<open>expiry_date >= today\<close> is a range on the indexed column \<open>expiry_date\<close>
  (\<open>index=True\<close> in app/models/inventory.py) and the rows come by a scan of that
  index: in ascending order of \<open>expiry_date\<close>, equal dates in table order.
\<close>

definition alert_rows ::
  "int \<Rightarrow> batch list \<Rightarrow> product list \<Rightarrow> int \<Rightarrow> bool \<Rightarrow> (batch \<times> product) list" where
  "alert_rows today db products min_quantity include_expired =
     (let rows = filter (\<lambda>(b, p). is_active b \<and> current_quantity b \<ge> min_quantity
                          \<and> p_is_active p \<and> (include_expired \<or> expiry_date b \<ge> today))
                   (join_product db products)
      in if include_expired then rows else sort_key (\<lambda>(b, p). expiry_date b) rows)"

text \<open>
  \<open>get_expiry_alerts\<close>: the loop that collects the alerts, then the sort.
  \<open>alert_levels\<close> is the optional list of the source (\<open>None\<close>
  and the empty list both switch the filter off); \<open>alerts.sort(key=..., reverse=True)\<close>
  is Python's stable sort, which with \<open>reverse=True\<close> still keeps equal keys in their
  original order: a stable sort on the negated score.
\<close>

definition collect_alerts ::
  "settings \<Rightarrow> int \<Rightarrow> batch list \<Rightarrow> product list \<Rightarrow> ExpiryAlertLevel list option \<Rightarrow> int \<Rightarrow> bool
     \<Rightarrow> ExpiryAlert list" where
  "collect_alerts s today db products alert_levels min_quantity include_expired =
     filter (\<lambda>a. case alert_levels of None \<Rightarrow> True
                  | Some ls \<Rightarrow> ls = [] \<or> alert_level a \<in> set ls)
       (map (make_alert s today) (alert_rows today db products min_quantity include_expired))"

definition get_expiry_alerts ::
  "settings \<Rightarrow> int \<Rightarrow> batch list \<Rightarrow> product list \<Rightarrow> ExpiryAlertLevel list option \<Rightarrow> int \<Rightarrow> bool
     \<Rightarrow> ExpiryAlert list" where
  "get_expiry_alerts s today db products alert_levels min_quantity include_expired =
     sort_key (\<lambda>a. - priority_score a)
       (collect_alerts s today db products alert_levels min_quantity include_expired)"

record bucket =
  b_batches :: int
  b_quantity :: int
  b_value :: rat

text \<open>
  \<open>count(id)\<close>, \<open>sum(current_quantity)\<close> and \<open>sum(current_quantity * selling_price)\<close>
  over the selected rows; an empty selection gives \<open>NULL\<close>, which \<open>or 0\<close> turns into 0.
\<close>

definition aggregate :: "(batch \<times> product) list \<Rightarrow> bucket" where
  "aggregate rows =
     \<lparr>b_batches = int (length rows),
      b_quantity = sum_list (map (\<lambda>(b, p). current_quantity b) rows),
      b_value = sum_list (map (\<lambda>(b, p). of_int (current_quantity b) * selling_price_per_unit b) rows)\<rparr>"

fun level_max_days :: "settings \<Rightarrow> ExpiryAlertLevel \<Rightarrow> int option" where
  "level_max_days s CRITICAL = Some (expiry_alert_1_week s)"
| "level_max_days s HIGH = Some (expiry_alert_1_month s)"
| "level_max_days s MEDIUM = Some (expiry_alert_3_months s)"
| "level_max_days s LOW = Some (expiry_alert_6_months s)"
| "level_max_days s INFO = None"

definition in_stock_rows :: "batch list \<Rightarrow> product list \<Rightarrow> (batch \<times> product) list" where
  "in_stock_rows db products =
     filter (\<lambda>(b, p). is_active b \<and> current_quantity b > 0 \<and> p_is_active p)
       (join_product db products)"

definition level_rows ::
  "int \<Rightarrow> batch list \<Rightarrow> product list \<Rightarrow> int \<Rightarrow> (batch \<times> product) list" where
  "level_rows today db products max_days =
     filter (\<lambda>(b, p). is_active b \<and> current_quantity b > 0 \<and> p_is_active p
                      \<and> expiry_date b \<le> today + max_days \<and> expiry_date b \<ge> today)
       (join_product db products)"

definition expired_rows :: "int \<Rightarrow> batch list \<Rightarrow> product list \<Rightarrow> (batch \<times> product) list" where
  "expired_rows today db products =
     filter (\<lambda>(b, p). is_active b \<and> current_quantity b > 0 \<and> p_is_active p
                      \<and> expiry_date b < today)
       (join_product db products)"

record ExpirySummary =
  totals :: bucket
  expiry_breakdown :: "ExpiryAlertLevel \<Rightarrow> bucket option"
  expired :: bucket

definition get_expiry_summary ::
  "settings \<Rightarrow> int \<Rightarrow> batch list \<Rightarrow> product list \<Rightarrow> ExpirySummary" where
  "get_expiry_summary s today db products =
     \<lparr>totals = aggregate (in_stock_rows db products),
      expiry_breakdown =
        (\<lambda>level. case level_max_days s level of
                    None \<Rightarrow> None
                  | Some max_days \<Rightarrow> Some (aggregate (level_rows today db products max_days))),
      expired = aggregate (expired_rows today db products)\<rparr>"

section \<open>Inventory service\<close>

text \<open>
  The session holds one object per primary key, so a batch object is the row with its
  \<open>id\<close>: \<open>get_batch_by_id\<close> finds that row, and an assignment to a field of the
  object rewrites the row with that \<open>id\<close>.
\<close>

definition get_batch_by_id :: "batch list \<Rightarrow> int \<Rightarrow> batch option" where
  "get_batch_by_id db bid = find (\<lambda>b. batch_id b = bid) db"

definition update_batch :: "int \<Rightarrow> (batch \<Rightarrow> batch) \<Rightarrow> batch list \<Rightarrow> batch list" where
  "update_batch bid f db = map (\<lambda>b. if batch_id b = bid then f b else b) db"

definition record_stock_movement ::
  "int \<Rightarrow> int \<Rightarrow> int \<Rightarrow> MovementType \<Rightarrow> int \<Rightarrow> string option \<Rightarrow> movement" where
  "record_stock_movement pid bid qty mt uid ref =
     \<lparr>m_product_id = pid, m_batch_id = bid, m_quantity = qty, m_type = mt,
      m_user_id = uid, m_reference = ref\<rparr>"

text \<open>
  The exceptions of these paths: \<open>ValueError need available\<close> stands for
  \<open>ValueError("Insufficient stock. Need {need}, available {available}")\<close>.
\<close>

datatype error = ValueError int int | StopIteration

text \<open>
  The query of \<open>reserve_stock\<close>: the \<open>where\<close> clause and the \<open>order_by\<close>. SQL leaves
  the order of rows with the same expiry date open; the database of the repository
  (SQLite, \<open>expiry_date\<close> indexed) reads them off the index: in table order for the
  ascending order, and, the index being walked backwards, in reverse table order for
  the descending one.
\<close>

definition reservable :: "int \<Rightarrow> batch \<Rightarrow> bool" where
  "reservable pid b =
     (product_id b = pid \<and> is_active b \<and> current_quantity b > reserved_quantity b)"

definition reservable_batches :: "batch list \<Rightarrow> int \<Rightarrow> bool \<Rightarrow> batch list" where
  "reservable_batches db pid prefer_fifo =
     (if prefer_fifo then sort_key expiry_date (filter (reservable pid) db)
      else rev (sort_key expiry_date (filter (reservable pid) db)))"

definition reservation_line :: "batch \<Rightarrow> int \<Rightarrow> reservation" where
  "reservation_line batch reserve_qty =
     \<lparr>r_batch_id = batch_id batch, r_batch_number = batch_number batch,
      r_quantity = reserve_qty, r_unit_price = selling_price_per_unit batch,
      r_expiry_date = expiry_date batch\<rparr>"

text \<open>
  The allocation loop: the batches still to visit, \<open>remaining_quantity\<close> and the
  session; it returns the reservation lines appended, the final
  \<open>remaining_quantity\<close> and the session. Each fetched batch is visited once and
  before any write to it, so the fields read from it are those of its row.
\<close>

fun reserve_loop ::
  "batch list \<Rightarrow> int \<Rightarrow> batch list \<Rightarrow> reservation list \<times> int \<times> batch list" where
  "reserve_loop [] remaining_quantity db = ([], remaining_quantity, db)"
| "reserve_loop (batch # rest) remaining_quantity db =
     (if remaining_quantity \<le> 0 then ([], remaining_quantity, db)
      else
        let available = current_quantity batch - reserved_quantity batch
        in if available \<le> 0 then reserve_loop rest remaining_quantity db
           else
             let reserve_qty = min remaining_quantity available;
                 db' = update_batch (batch_id batch)
                         (\<lambda>b. b\<lparr>reserved_quantity := reserved_quantity b + reserve_qty\<rparr>) db;
                 (reservations, remaining', db'') =
                    reserve_loop rest (remaining_quantity - reserve_qty) db'
             in (reservation_line batch reserve_qty # reservations, remaining', db''))"

text \<open>
  The rollback loop; \<open>next(b for b in batches if b.id == ...)\<close> raises
  \<open>StopIteration\<close> when no fetched batch has the id.
\<close>

fun rollback :: "reservation list \<Rightarrow> batch list \<Rightarrow> batch list \<Rightarrow> error option \<times> batch list" where
  "rollback [] batches db = (None, db)"
| "rollback (reservation # rest) batches db =
     (case find (\<lambda>b. batch_id b = r_batch_id reservation) batches of
        None \<Rightarrow> (Some StopIteration, db)
      | Some batch \<Rightarrow>
          rollback rest batches
            (update_batch (batch_id batch)
               (\<lambda>b. b\<lparr>reserved_quantity := reserved_quantity b - r_quantity reservation\<rparr>) db))"

text \<open>
  \<open>reserve_stock\<close> returns the raised error or the reservation list, and the session
  as the call leaves it. The \<open>ValueError\<close> of the source carries the requested
  quantity and \<open>quantity - remaining_quantity\<close>.
\<close>

definition reserve_stock ::
  "batch list \<Rightarrow> int \<Rightarrow> int \<Rightarrow> bool \<Rightarrow> (error + reservation list) \<times> batch list" where
  "reserve_stock db pid quantity prefer_fifo =
     (let batches = reservable_batches db pid prefer_fifo;
          (reservations, remaining_quantity, db') = reserve_loop batches quantity db
      in if remaining_quantity > 0 then
           (case rollback reservations batches db' of
              (Some e, db'') \<Rightarrow> (Inl e, db'')
            | (None, db'') \<Rightarrow>
                (Inl (ValueError quantity (quantity - remaining_quantity)), db''))
         else (Inr reservations, db'))"

fun release_reservation :: "reservation list \<Rightarrow> batch list \<Rightarrow> batch list" where
  "release_reservation [] db = db"
| "release_reservation (reservation # rest) db =
     (case get_batch_by_id db (r_batch_id reservation) of
        None \<Rightarrow> release_reservation rest db
      | Some batch \<Rightarrow>
          release_reservation rest
            (update_batch (batch_id batch)
               (\<lambda>b. b\<lparr>reserved_quantity :=
                         max 0 (reserved_quantity b - r_quantity reservation)\<rparr>) db))"

text \<open>
  The loop of \<open>confirm_sale\<close>, returning the session and the movements recorded.
  The source has no \<open>raise\<close> on this path, so \<open>confirm_sale\<close> always returns
  normally (\<open>Inr\<close>).
\<close>

fun confirm_loop ::
  "reservation list \<Rightarrow> int \<Rightarrow> string \<Rightarrow> batch list \<Rightarrow> batch list \<times> movement list" where
  "confirm_loop [] user_id sale_reference db = (db, [])"
| "confirm_loop (reservation # rest) user_id sale_reference db =
     (case get_batch_by_id db (r_batch_id reservation) of
        None \<Rightarrow> confirm_loop rest user_id sale_reference db
      | Some batch \<Rightarrow>
          let db' = update_batch (batch_id batch)
                      (\<lambda>b. b\<lparr>current_quantity := current_quantity b - r_quantity reservation,
                             reserved_quantity := reserved_quantity b - r_quantity reservation\<rparr>)
                      db;
              m = record_stock_movement (product_id batch) (batch_id batch)
                    (- r_quantity reservation) SALE user_id (Some sale_reference);
              (db'', ms) = confirm_loop rest user_id sale_reference db'
          in (db'', m # ms))"

definition confirm_sale ::
  "reservation list \<Rightarrow> int \<Rightarrow> string \<Rightarrow> batch list \<Rightarrow> error + batch list \<times> movement list" where
  "confirm_sale reservations user_id sale_reference db =
     Inr (confirm_loop reservations user_id sale_reference db)"

definition adjust_stock ::
  "int \<Rightarrow> int \<Rightarrow> int \<Rightarrow> batch list \<Rightarrow> bool \<times> batch list \<times> movement list" where
  "adjust_stock bid new_quantity user_id db =
     (case get_batch_by_id db bid of
        None \<Rightarrow> (False, db, [])
      | Some batch \<Rightarrow>
          let old_quantity = current_quantity batch;
              adjustment = new_quantity - old_quantity
          in (True,
              update_batch (batch_id batch) (\<lambda>b. b\<lparr>current_quantity := new_quantity\<rparr>) db,
              [record_stock_movement (product_id batch) bid adjustment ADJUSTMENT user_id None]))"

definition mark_batch_expired ::
  "int \<Rightarrow> int \<Rightarrow> batch list \<Rightarrow> bool \<times> batch list \<times> movement list" where
  "mark_batch_expired bid user_id db =
     (case get_batch_by_id db bid of
        None \<Rightarrow> (False, db, [])
      | Some batch \<Rightarrow>
          if current_quantity batch \<le> 0 then (False, db, [])
          else (True,
                update_batch (batch_id batch)
                  (\<lambda>b. b\<lparr>is_expired := True, current_quantity := 0\<rparr>) db,
                [record_stock_movement (product_id batch) bid (- current_quantity batch)
                   EXPIRED user_id None]))"


section \<open>Auxiliary definitions for the proofs\<close>

text \<open>The weighted combination inside \<open>calculate_priority_score\<close>, before the multiplier.\<close>

definition weighted :: "int \<Rightarrow> int \<Rightarrow> rat \<Rightarrow> rat" where
  "weighted d q u =
     to_double
       (to_double (to_double (to_double (of_int (max 0 (365 - d)) / 365) * (1 / 2))
                   + to_double (min (to_double (to_double (to_double (of_int q) * u) / 1000)) 1
                                * to_double (3 / 10)))
        + to_double (min (to_double (of_int q / 100)) 1 * to_double (1 / 5)))"

text \<open>
  For the reservation loop: \<open>available\<close> is \<open>current_quantity - reserved_quantity\<close>;
  \<open>allocation\<close> is the part of \<open>reserve_loop\<close> that does not depend on the session
  (the lines appended and the final \<open>remaining_quantity\<close>); \<open>qsum rs i\<close> is the sum
  of the quantities of the lines of \<open>rs\<close> that name batch \<open>i\<close>;
  \<open>total_available\<close> sums \<open>available\<close> over the batches the query selects.
\<close>

definition qsum :: "reservation list \<Rightarrow> int \<Rightarrow> int" where
  "qsum rs i = sum_list (map r_quantity (filter (\<lambda>r. r_batch_id r = i) rs))"

definition available :: "batch \<Rightarrow> int" where
  "available b = current_quantity b - reserved_quantity b"

fun allocation :: "batch list \<Rightarrow> int \<Rightarrow> reservation list \<times> int" where
  "allocation [] remaining = ([], remaining)"
| "allocation (b # bs) remaining =
     (if remaining \<le> 0 then ([], remaining)
      else if available b \<le> 0 then allocation bs remaining
      else (reservation_line b (min remaining (available b))
              # fst (allocation bs (remaining - min remaining (available b))),
            snd (allocation bs (remaining - min remaining (available b)))))"

definition total_available :: "batch list \<Rightarrow> int \<Rightarrow> int" where
  "total_available db pid = sum_list (map available (filter (reservable pid) db))"

text \<open>
  \<open>prefix_available cs i\<close>: what the first \<open>i\<close> batches of \<open>cs\<close> have available together.
\<close>

definition prefix_available :: "batch list \<Rightarrow> nat \<Rightarrow> int" where
  "prefix_available cs i = sum_list (map available (take i cs))"

text \<open>
  The invariant of a batch: \<open>0 \<le> reserved_quantity \<le> current_quantity\<close>.
\<close>

definition batch_ok :: "batch \<Rightarrow> bool" where
  "batch_ok b = (0 \<le> reserved_quantity b \<and> reserved_quantity b \<le> current_quantity b)"

text \<open>
  The batches a bucket of the expiry summary is about: \<open>product_active\<close> says that the
  product of a batch exists and is active; \<open>window_batches\<close> are the active, in-stock
  batches of active products that expire between today and \<open>max_days\<close> days from
  today, \<open>expired_batches\<close> those that expired before today; \<open>batch_bucket\<close> is the
  count, quantity and value of a list of batches.
\<close>

definition product_active :: "product list \<Rightarrow> batch \<Rightarrow> bool" where
  "product_active products b = (\<exists>p \<in> set products. p_id p = product_id b \<and> p_is_active p)"

definition window_batches :: "int \<Rightarrow> product list \<Rightarrow> batch list \<Rightarrow> int \<Rightarrow> batch list" where
  "window_batches today products db max_days =
     filter (\<lambda>b. is_active b \<and> current_quantity b > 0 \<and> product_active products b
                 \<and> today \<le> expiry_date b \<and> expiry_date b \<le> today + max_days) db"

definition expired_batches :: "int \<Rightarrow> product list \<Rightarrow> batch list \<Rightarrow> batch list" where
  "expired_batches today products db =
     filter (\<lambda>b. is_active b \<and> current_quantity b > 0 \<and> product_active products b
                 \<and> expiry_date b < today) db"

definition batch_bucket :: "batch list \<Rightarrow> bucket" where
  "batch_bucket bs =
     \<lparr>b_batches = int (length bs),
      b_quantity = sum_list (map current_quantity bs),
      b_value = sum_list (map (\<lambda>b. of_int (current_quantity b) * selling_price_per_unit b) bs)\<rparr>"

section \<open>Definitions that follow the specification's words\<close>

text \<open>
  The recommended-action table as the specification prints it (section 6), to be
  compared with \<open>get_recommended_action\<close>; \<open>ascii_lower\<close> maps an upper-case
  ASCII letter to its lower-case letter.
\<close>

definition ascii_lower :: "char \<Rightarrow> char" where
  "ascii_lower c =
     (case map_of (zip ''ABCDEFGHIJKLMNOPQRSTUVWXYZ'' ''abcdefghijklmnopqrstuvwxyz'') c of
        Some l \<Rightarrow> l | None \<Rightarrow> c)"

fun spec_recommended_action :: "ExpiryAlertLevel \<Rightarrow> int \<Rightarrow> string" where
  "spec_recommended_action CRITICAL q =
     (if q > 50 then ''bulk discount sale or return to supplier''
      else ''prioritize sale or mark for disposal'')"
| "spec_recommended_action HIGH q =
     (if q > 100 then ''promotional pricing or contact supplier for return''
      else ''prioritize in sales recommendations'')"
| "spec_recommended_action MEDIUM q = ''monitor closely and consider promotional strategies''"
| "spec_recommended_action LOW q = ''plan inventory rotation and adjust reorder quantities''"
| "spec_recommended_action INFO q = ''monitor for future planning''"

section \<open>Example data\<close>

text \<open>
  One active product and two of its batches, 100 units at 10 a unit each, expiring in
  500 and in 400 days: both alerts score 0.5.
\<close>

definition test_product :: product where
  "test_product =
     \<lparr>p_id = 1, p_name = ''Test Medicine'', p_is_active = True, is_controlled_substance = False\<rparr>"

definition tie_batch_500 :: batch where
  "tie_batch_500 =
     \<lparr>batch_id = 1, product_id = 1, batch_number = ''B500'', current_quantity = 100,
      reserved_quantity = 0, selling_price_per_unit = 10, expiry_date = 500,
      is_active = True, is_expired = False\<rparr>"

definition tie_batch_400 :: batch where
  "tie_batch_400 =
     \<lparr>batch_id = 2, product_id = 1, batch_number = ''B400'', current_quantity = 100,
      reserved_quantity = 0, selling_price_per_unit = 10, expiry_date = 400,
      is_active = True, is_expired = False\<rparr>"

text \<open>
  Three batches of the test fixture (tests/test_expiry_service.py), with today as day 0:
  30, 75 and 150 units expiring in 3, 20 and 60 days, stored in another order.
\<close>

definition fixture_db :: "batch list" where
  "fixture_db =
     [\<lparr>batch_id = 3, product_id = 1, batch_number = ''MEDIUM001'', current_quantity = 150,
       reserved_quantity = 0, selling_price_per_unit = 15, expiry_date = 60,
       is_active = True, is_expired = False\<rparr>,
      \<lparr>batch_id = 1, product_id = 1, batch_number = ''CRITICAL001'', current_quantity = 30,
       reserved_quantity = 0, selling_price_per_unit = 15, expiry_date = 3,
       is_active = True, is_expired = False\<rparr>,
      \<lparr>batch_id = 2, product_id = 1, batch_number = ''HIGH001'', current_quantity = 75,
       reserved_quantity = 0, selling_price_per_unit = 15, expiry_date = 20,
       is_active = True, is_expired = False\<rparr>]"

text \<open>
  Two active batches of product 1 past their expiry date (today is day 0), 10 units
  each; the second also carries the \<open>is_expired\<close> flag.
\<close>

definition expired_db :: "batch list" where
  "expired_db =
     [\<lparr>batch_id = 1, product_id = 1, batch_number = ''OLD001'', current_quantity = 10,
       reserved_quantity = 0, selling_price_per_unit = 15, expiry_date = - 5,
       is_active = True, is_expired = False\<rparr>,
      \<lparr>batch_id = 2, product_id = 1, batch_number = ''OLD002'', current_quantity = 10,
       reserved_quantity = 0, selling_price_per_unit = 15, expiry_date = - 30,
       is_active = True, is_expired = True\<rparr>]"

text \<open>
  The reservation of 40 units on the fixture batches, and the batches after it
  (30 of 30 units reserved in the 3-day batch, 10 of 75 in the 20-day batch).
\<close>

definition fixture_reservation :: "reservation list" where
  "fixture_reservation =
     [reservation_line (fixture_db ! 1) 30, reservation_line (fixture_db ! 2) 10]"

definition reserved_db :: "batch list" where
  "reserved_db = snd (reserve_stock fixture_db 1 40 True)"

text \<open>
  The five batches of the test fixture, a batch that expired five days ago and an
  inactive batch.
\<close>

definition summary_db :: "batch list" where
  "summary_db = fixture_db @
     [\<lparr>batch_id = 4, product_id = 1, batch_number = ''LOW001'', current_quantity = 250,
       reserved_quantity = 0, selling_price_per_unit = 15, expiry_date = 120,
       is_active = True, is_expired = False\<rparr>,
      \<lparr>batch_id = 5, product_id = 1, batch_number = ''INFO001'', current_quantity = 350,
       reserved_quantity = 0, selling_price_per_unit = 15, expiry_date = 300,
       is_active = True, is_expired = False\<rparr>,
      \<lparr>batch_id = 6, product_id = 1, batch_number = ''OLD001'', current_quantity = 10,
       reserved_quantity = 0, selling_price_per_unit = 15, expiry_date = - 5,
       is_active = True, is_expired = False\<rparr>,
      \<lparr>batch_id = 7, product_id = 1, batch_number = ''OFF001'', current_quantity = 5,
       reserved_quantity = 0, selling_price_per_unit = 15, expiry_date = 3,
       is_active = False, is_expired = False\<rparr>]"

text \<open>
  Thresholds out of order, the month (5 days) below the week (7 days), which
  \<open>Settings\<close> accepts, and a batch of 10 units expiring in 6 days.
\<close>

definition narrow_settings :: settings where
  "narrow_settings =
     \<lparr>expiry_alert_6_months = 180, expiry_alert_3_months = 90,
      expiry_alert_1_month = 5, expiry_alert_1_week = 7\<rparr>"

definition six_day_db :: "batch list" where
  "six_day_db =
     [\<lparr>batch_id = 1, product_id = 1, batch_number = ''SIX001'', current_quantity = 10,
       reserved_quantity = 0, selling_price_per_unit = 15, expiry_date = 6,
       is_active = True, is_expired = False\<rparr>]"

section \<open>Auxiliary lemmas\<close>

subsection \<open>The reservation loop\<close>

lemma qsum_Nil [simp]: "qsum [] i = 0"
  by (simp add: qsum_def)

lemma qsum_Cons [simp]:
  "qsum (r # rs) i = (if r_batch_id r = i then r_quantity r else 0) + qsum rs i"
  by (simp add: qsum_def)

lemma update_batch_map:
  "map g (update_batch i f db) = map (\<lambda>b. if batch_id b = i then g (f b) else g b) db"
  by (simp add: update_batch_def comp_def if_distrib)

lemma reserve_loop_allocation:
  "reserve_loop cs remaining db =
     (fst (allocation cs remaining), snd (allocation cs remaining),
      map (\<lambda>b. b\<lparr>reserved_quantity := reserved_quantity b + qsum (fst (allocation cs remaining)) (batch_id b)\<rparr>) db)"
proof (induction cs arbitrary: remaining db)
  case Nil
  show ?case by (simp add: map_idI)
next
  case (Cons c cs)
  show ?case
  proof (cases "remaining \<le> 0")
    case True
    then show ?thesis by (simp add: map_idI)
  next
    case pos: False
    show ?thesis
    proof (cases "available c \<le> 0")
      case True
      with pos show ?thesis using Cons.IH[of remaining db] by (simp add: available_def)
    next
      case False
      with pos show ?thesis
        by (simp add: available_def Let_def Cons.IH update_batch_map reservation_line_def
            split: prod.splits)
    qed
  qed
qed

lemma allocation_nonpos: "remaining \<le> 0 \<Longrightarrow> allocation cs remaining = ([], remaining)"
  by (cases cs) simp_all

lemma allocation_sum:
  "sum_list (map r_quantity (fst (allocation cs remaining))) = remaining - snd (allocation cs remaining)"
  by (induction cs arbitrary: remaining) (simp_all add: reservation_line_def)

lemma allocation_remaining:
  "0 \<le> remaining \<Longrightarrow>
   snd (allocation cs remaining) = max 0 (remaining - sum_list (map (\<lambda>c. max 0 (available c)) cs))"
proof (induction cs arbitrary: remaining)
  case Nil
  then show ?case by simp
next
  case (Cons c cs)
  have tot: "0 \<le> sum_list (map (\<lambda>c. max 0 (available c)) cs)"
    by (rule sum_list_nonneg) auto
  show ?case
  proof (cases "remaining \<le> 0")
    case True
    with Cons.prems tot show ?thesis by simp
  next
    case pos: False
    show ?thesis
    proof (cases "available c \<le> 0")
      case True
      with pos Cons show ?thesis by simp
    next
      case False
      have "0 \<le> remaining - min remaining (available c)" by simp
      from Cons.IH[OF this] pos False tot show ?thesis by (simp add: min_def max_def)
    qed
  qed
qed

lemma allocation_ids:
  "r \<in> set (fst (allocation cs remaining)) \<Longrightarrow> r_batch_id r \<in> batch_id ` set cs"
  by (induction cs arbitrary: remaining) (auto simp: reservation_line_def split: if_splits)

lemma qsum_allocation_notin:
  "i \<notin> batch_id ` set cs \<Longrightarrow> qsum (fst (allocation cs remaining)) i = 0"
  by (induction cs arbitrary: remaining) (auto simp: reservation_line_def)

lemma qsum_allocation_nonneg: "0 \<le> qsum (fst (allocation cs remaining)) i"
  by (induction cs arbitrary: remaining) (auto simp: reservation_line_def)

lemma qsum_allocation_le:
  "distinct (map batch_id cs) \<Longrightarrow> c \<in> set cs \<Longrightarrow>
   qsum (fst (allocation cs remaining)) (batch_id c) \<le> max 0 (available c)"
proof (induction cs arbitrary: remaining)
  case Nil
  then show ?case by simp
next
  case (Cons a cs)
  show ?case
  proof (cases "c = a")
    case True
    with Cons.prems have "batch_id c \<notin> batch_id ` set cs" by auto
    then have "qsum (fst (allocation cs r)) (batch_id c) = 0" for r
      by (rule qsum_allocation_notin)
    with True show ?thesis by (simp add: reservation_line_def)
  next
    case False
    with Cons.prems have in_cs: "c \<in> set cs" and d: "distinct (map batch_id cs)"
      and ne: "batch_id a \<noteq> batch_id c" by auto
    from Cons.IH[OF d in_cs] ne show ?thesis by (simp add: reservation_line_def)
  qed
qed

lemma rollback_closed:
  "(\<forall>r \<in> set rs. r_batch_id r \<in> batch_id ` set cs) \<Longrightarrow>
   rollback rs cs db =
     (None, map (\<lambda>b. b\<lparr>reserved_quantity := reserved_quantity b - qsum rs (batch_id b)\<rparr>) db)"
proof (induction rs arbitrary: db)
  case Nil
  show ?case by (simp add: map_idI)
next
  case (Cons r rs)
  from Cons.prems obtain c where c: "find (\<lambda>b. batch_id b = r_batch_id r) cs = Some c"
    by (cases "find (\<lambda>b. batch_id b = r_batch_id r) cs") (auto simp: find_None_iff)
  then have id: "batch_id c = r_batch_id r" by (auto simp: find_Some_iff)
  from Cons.prems have "\<forall>r \<in> set rs. r_batch_id r \<in> batch_id ` set cs" by simp
  from Cons.IH[OF this] c id show ?case
    by (simp add: update_batch_map)
qed

lemma set_reservable_batches:
  "set (reservable_batches db pid fifo) = {b \<in> set db. reservable pid b}"
  by (auto simp: reservable_batches_def)

lemma mset_reservable_batches:
  "mset (reservable_batches db pid fifo) = filter_mset (reservable pid) (mset db)"
  by (simp add: reservable_batches_def)

lemma sum_reservable_batches:
  fixes f :: "batch \<Rightarrow> int"
  shows "sum_list (map f (reservable_batches db pid fifo))
         = sum_list (map f (filter (reservable pid) db))"
proof -
  have "mset (map f (reservable_batches db pid fifo)) = mset (map f (filter (reservable pid) db))"
    by (simp add: mset_reservable_batches)
  then have "sum_mset (mset (map f (reservable_batches db pid fifo)))
             = sum_mset (mset (map f (filter (reservable pid) db)))" by simp
  then show ?thesis by (simp only: sum_mset_sum_list)
qed

lemma available_reservable: "c \<in> set (reservable_batches db pid fifo) \<Longrightarrow> 0 < available c"
  by (simp add: set_reservable_batches reservable_def available_def)

lemma total_reservable_batches:
  "sum_list (map (\<lambda>c. max 0 (available c)) (reservable_batches db pid fifo)) = total_available db pid"
proof -
  have "map (\<lambda>c. max 0 (available c)) (reservable_batches db pid fifo)
        = map available (reservable_batches db pid fifo)"
  proof (rule map_cong)
    fix c assume "c \<in> set (reservable_batches db pid fifo)"
    then have "0 < available c" by (rule available_reservable)
    then show "max 0 (available c) = available c" by simp
  qed simp
  then have "sum_list (map (\<lambda>c. max 0 (available c)) (reservable_batches db pid fifo))
             = sum_list (map available (reservable_batches db pid fifo))" by (rule arg_cong)
  also have "\<dots> = total_available db pid"
    unfolding total_available_def by (rule sum_reservable_batches)
  finally show ?thesis .
qed

lemma total_available_nonneg: "0 \<le> total_available db pid"
  unfolding total_available_def
  by (rule sum_list_nonneg) (auto simp: reservable_def available_def)

lemma distinct_reservable_batches:
  "distinct (map batch_id db) \<Longrightarrow> distinct (map batch_id (reservable_batches db pid fifo))"
proof -
  assume d: "distinct (map batch_id db)"
  have "mset (map batch_id (reservable_batches db pid fifo))
        = image_mset batch_id (filter_mset (reservable pid) (mset db))"
    by (simp add: mset_reservable_batches)
  also have "\<dots> = mset (map batch_id (filter (reservable pid) db))" by simp
  finally have "mset (map batch_id (reservable_batches db pid fifo))
        = mset (map batch_id (filter (reservable pid) db))" .
  moreover have "distinct (map batch_id (filter (reservable pid) db))"
    using d by (rule distinct_map_filter)
  ultimately show ?thesis by (metis mset_eq_imp_distinct_iff)
qed

lemma reserve_stock_insufficient:
  assumes "total_available db pid < q"
  shows "reserve_stock db pid q fifo = (Inl (ValueError q (total_available db pid)), db)"
proof -
  let ?cs = "reservable_batches db pid fifo"
  let ?rs = "fst (allocation ?cs q)"
  from assms total_available_nonneg[of db pid] have q: "0 \<le> q" by simp
  have rem: "snd (allocation ?cs q) = q - total_available db pid"
    using allocation_remaining[OF q, of ?cs] assms by (simp add: total_reservable_batches)
  have ids: "\<forall>r \<in> set ?rs. r_batch_id r \<in> batch_id ` set ?cs"
    using allocation_ids by blast
  have undo: "rollback ?rs ?cs
      (map (\<lambda>b. b\<lparr>reserved_quantity := reserved_quantity b + qsum ?rs (batch_id b)\<rparr>) db)
      = (None, db)"
    by (simp add: rollback_closed[OF ids] comp_def map_idI)
  show ?thesis
    using assms rem undo by (simp add: reserve_stock_def reserve_loop_allocation Let_def)
qed

lemma reserve_stock_sufficient:
  assumes "q \<le> total_available db pid"
  shows "reserve_stock db pid q fifo =
           (Inr (fst (allocation (reservable_batches db pid fifo) q)),
            map (\<lambda>b. b\<lparr>reserved_quantity := reserved_quantity b
                        + qsum (fst (allocation (reservable_batches db pid fifo) q)) (batch_id b)\<rparr>) db)"
    and "sum_list (map r_quantity (fst (allocation (reservable_batches db pid fifo) q))) = max 0 q"
proof -
  let ?cs = "reservable_batches db pid fifo"
  have rem: "snd (allocation ?cs q) = min 0 q"
  proof (cases "0 \<le> q")
    case True
    from allocation_remaining[OF True, of ?cs] assms True show ?thesis
      by (simp add: total_reservable_batches)
  next
    case False
    then show ?thesis by (simp add: allocation_nonpos)
  qed
  then show "reserve_stock db pid q fifo =
           (Inr (fst (allocation ?cs q)),
            map (\<lambda>b. b\<lparr>reserved_quantity := reserved_quantity b
                        + qsum (fst (allocation ?cs q)) (batch_id b)\<rparr>) db)"
    by (simp add: reserve_stock_def reserve_loop_allocation Let_def)
  show "sum_list (map r_quantity (fst (allocation ?cs q))) = max 0 q"
    using rem by (simp add: allocation_sum)
qed

lemma distinct_key_eq:
  "distinct (map f xs) \<Longrightarrow> x \<in> set xs \<Longrightarrow> y \<in> set xs \<Longrightarrow> f x = f y \<Longrightarrow> x = y"
  by (meson distinct_map inj_onD)

lemma bump_row:
  assumes d: "distinct (map batch_id db)" and b: "b \<in> set db"
  shows "0 \<le> qsum (fst (allocation (reservable_batches db pid fifo) q)) (batch_id b)"
    and "0 < qsum (fst (allocation (reservable_batches db pid fifo) q)) (batch_id b)
         \<Longrightarrow> reserved_quantity b + qsum (fst (allocation (reservable_batches db pid fifo) q)) (batch_id b)
             \<le> current_quantity b"
proof -
  let ?cs = "reservable_batches db pid fifo"
  let ?n = "qsum (fst (allocation ?cs q)) (batch_id b)"
  show "0 \<le> ?n" by (rule qsum_allocation_nonneg)
  assume pos: "0 < ?n"
  then have "batch_id b \<in> batch_id ` set ?cs"
    using qsum_allocation_notin[of "batch_id b" ?cs q] by auto
  then obtain c where c: "c \<in> set ?cs" and id: "batch_id c = batch_id b" by auto
  from c have "c \<in> set db" by (simp add: set_reservable_batches)
  with d b id have "c = b" by (auto dest: distinct_key_eq)
  with c have bc: "b \<in> set ?cs" by simp
  from qsum_allocation_le[OF distinct_reservable_batches[OF d] bc, of q]
    available_reservable[OF bc]
  show "reserved_quantity b + ?n \<le> current_quantity b" by (simp add: available_def)
qed

subsection \<open>The allocation, batch by batch\<close>

lemma prefix_available_0 [simp]: "prefix_available cs 0 = 0"
  by (simp add: prefix_available_def)

lemma prefix_available_Suc [simp]:
  "prefix_available (c # cs) (Suc i) = available c + prefix_available cs i"
  by (simp add: prefix_available_def)

lemma prefix_available_nonneg:
  "\<forall>c \<in> set cs. 0 < available c \<Longrightarrow> 0 \<le> prefix_available cs i"
  unfolding prefix_available_def
  by (rule sum_list_nonneg) (auto dest!: in_set_takeD)

lemma allocation_length: "length (fst (allocation cs q)) \<le> length cs"
  by (induction cs arbitrary: q) (auto simp: le_SucI)

lemma allocation_greedy:
  assumes "\<forall>c \<in> set cs. 0 < available c" and "i < length (fst (allocation cs q))"
  shows "fst (allocation cs q) ! i
           = reservation_line (cs ! i) (min (q - prefix_available cs i) (available (cs ! i)))
         \<and> prefix_available cs i < q"
  using assms
proof (induction cs arbitrary: q i)
  case Nil
  then show ?case by simp
next
  case (Cons b bs)
  from Cons.prems have avb: "0 < available b" and avs: "\<forall>c \<in> set bs. 0 < available c" by auto
  from Cons.prems(2) have q: "0 < q" by (cases "q \<le> 0") auto
  let ?m = "min q (available b)"
  have rs: "fst (allocation (b # bs) q) = reservation_line b ?m # fst (allocation bs (q - ?m))"
    using q avb by simp
  show ?case
  proof (cases i)
    case 0
    with rs q show ?thesis by simp
  next
    case (Suc j)
    with Cons.prems(2) rs have j: "j < length (fst (allocation bs (q - ?m)))" by simp
    from Cons.IH[OF avs j]
    have nth: "fst (allocation bs (q - ?m)) ! j
                 = reservation_line (bs ! j) (min (q - ?m - prefix_available bs j) (available (bs ! j)))"
      and lt: "prefix_available bs j < q - ?m" by auto
    from prefix_available_nonneg[OF avs, of j] lt have "?m < q" by simp
    then have m: "?m = available b" by simp
    from nth lt m Suc rs show ?thesis by (simp add: algebra_simps)
  qed
qed

lemma allocation_stops:
  assumes "\<forall>c \<in> set cs. 0 < available c"
    and "length (fst (allocation cs q)) < length cs"
  shows "q \<le> prefix_available cs (length (fst (allocation cs q)))"
  using assms
proof (induction cs arbitrary: q)
  case Nil
  then show ?case by simp
next
  case (Cons b bs)
  from Cons.prems have avb: "0 < available b" and avs: "\<forall>c \<in> set bs. 0 < available c" by auto
  show ?case
  proof (cases "q \<le> 0")
    case True
    then show ?thesis by simp
  next
    case False
    let ?m = "min q (available b)"
    have rs: "fst (allocation (b # bs) q) = reservation_line b ?m # fst (allocation bs (q - ?m))"
      using False avb by simp
    with Cons.prems(2) have "length (fst (allocation bs (q - ?m))) < length bs" by simp
    from Cons.IH[OF avs this] rs show ?thesis by simp
  qed
qed

lemma sorted_reservable_batches:
  "sorted (map expiry_date (reservable_batches db pid True))"
  by (simp add: reservable_batches_def)

subsection \<open>Confirm, release, adjust and mark expired\<close>

lemma get_batch_by_id_None: "get_batch_by_id db i = None \<longleftrightarrow> i \<notin> batch_id ` set db"
  by (auto simp: get_batch_by_id_def find_None_iff)

lemma get_batch_by_id_Some:
  "get_batch_by_id db i = Some b \<Longrightarrow> b \<in> set db \<and> batch_id b = i"
  by (auto simp: get_batch_by_id_def find_Some_iff)

lemma update_batch_absent: "i \<notin> batch_id ` set db \<Longrightarrow> update_batch i f db = db"
  unfolding update_batch_def by (rule map_idI) auto

lemma update_batch_ids:
  "(\<And>b. batch_id (f b) = batch_id b) \<Longrightarrow> map batch_id (update_batch i f db) = map batch_id db"
  by (simp add: update_batch_def)

lemma update_batch_all:
  "(\<And>b. b \<in> set db \<Longrightarrow> batch_id b = i \<Longrightarrow> P b \<Longrightarrow> P (f b)) \<Longrightarrow> list_all P db
   \<Longrightarrow> list_all P (update_batch i f db)"
  by (auto simp: update_batch_def list_all_iff)

lemma confirm_loop_step:
  "confirm_loop (r # rs) u ref db =
     (let db' = update_batch (r_batch_id r)
                  (\<lambda>b. b\<lparr>current_quantity := current_quantity b - r_quantity r,
                         reserved_quantity := reserved_quantity b - r_quantity r\<rparr>) db
      in (fst (confirm_loop rs u ref db'),
          (case get_batch_by_id db (r_batch_id r) of
             None \<Rightarrow> []
           | Some batch \<Rightarrow> [record_stock_movement (product_id batch) (r_batch_id r)
                               (- r_quantity r) SALE u (Some ref)])
          @ snd (confirm_loop rs u ref db')))"
proof (cases "get_batch_by_id db (r_batch_id r)")
  case None
  then have "r_batch_id r \<notin> batch_id ` set db" by (simp add: get_batch_by_id_None)
  then have "update_batch (r_batch_id r)
                  (\<lambda>b. b\<lparr>current_quantity := current_quantity b - r_quantity r,
                         reserved_quantity := reserved_quantity b - r_quantity r\<rparr>) db = db"
    by (rule update_batch_absent)
  with None show ?thesis by (simp add: Let_def)
next
  case (Some batch)
  then show ?thesis
    using get_batch_by_id_Some[OF Some] by (simp add: Let_def split: prod.splits)
qed

lemma confirm_loop_db:
  "fst (confirm_loop rs u ref db) =
     map (\<lambda>b. b\<lparr>current_quantity := current_quantity b - qsum rs (batch_id b),
                reserved_quantity := reserved_quantity b - qsum rs (batch_id b)\<rparr>) db"
proof (induction rs arbitrary: db)
  case Nil
  show ?case by (simp add: map_idI)
next
  case (Cons r rs)
  show ?case
    by (simp only: confirm_loop_step Let_def fst_conv Cons.IH update_batch_map)
       (simp add: algebra_simps)
qed

lemma confirm_loop_movements:
  "map (\<lambda>m. (m_batch_id m, m_quantity m, m_type m, m_user_id m, m_reference m))
       (snd (confirm_loop rs u ref db))
   = map (\<lambda>r. (r_batch_id r, - r_quantity r, SALE, u, Some ref))
       (filter (\<lambda>r. r_batch_id r \<in> batch_id ` set db) rs)"
proof (induction rs arbitrary: db)
  case Nil
  show ?case by simp
next
  case (Cons r rs)
  let ?db' = "update_batch (r_batch_id r)
                  (\<lambda>b. b\<lparr>current_quantity := current_quantity b - r_quantity r,
                         reserved_quantity := reserved_quantity b - r_quantity r\<rparr>) db"
  have "map batch_id ?db' = map batch_id db" by (rule update_batch_ids) simp
  then have ids: "batch_id ` set ?db' = batch_id ` set db" by (metis set_map)
  show ?case
  proof (cases "get_batch_by_id db (r_batch_id r)")
    case None
    then have "r_batch_id r \<notin> batch_id ` set db" by (simp add: get_batch_by_id_None)
    with None show ?thesis
      using Cons.IH[of ?db'] ids
      by (simp add: confirm_loop_step Let_def del: confirm_loop.simps)
  next
    case (Some batch)
    then have "r_batch_id r \<in> batch_id ` set db"
      using get_batch_by_id_None[of db "r_batch_id r"] by auto
    with Some show ?thesis
      using Cons.IH[of ?db'] ids
      by (simp add: confirm_loop_step Let_def record_stock_movement_def del: confirm_loop.simps)
  qed
qed

lemma release_reservation_ok:
  "\<forall>r \<in> set rs. 0 \<le> r_quantity r \<Longrightarrow> list_all batch_ok db
   \<Longrightarrow> list_all batch_ok (release_reservation rs db)"
proof (induction rs arbitrary: db)
  case Nil
  then show ?case by simp
next
  case (Cons r rs)
  from Cons.prems have q: "0 \<le> r_quantity r" and rest: "\<forall>r \<in> set rs. 0 \<le> r_quantity r"
    by auto
  have "list_all batch_ok (update_batch i
          (\<lambda>b. b\<lparr>reserved_quantity := max 0 (reserved_quantity b - r_quantity r)\<rparr>) db)" for i
  proof (rule update_batch_all)
    fix b assume "batch_ok b"
    with q show "batch_ok (b\<lparr>reserved_quantity := max 0 (reserved_quantity b - r_quantity r)\<rparr>)"
      by (simp add: batch_ok_def)
  qed (rule Cons.prems(2))
  with Cons.IH[OF rest] Cons.prems(2) show ?case by (simp split: option.splits)
qed

lemma release_reservation_nonneg:
  "list_all (\<lambda>b. 0 \<le> reserved_quantity b) db
   \<Longrightarrow> list_all (\<lambda>b. 0 \<le> reserved_quantity b) (release_reservation rs db)"
proof (induction rs arbitrary: db)
  case Nil
  then show ?case by simp
next
  case (Cons r rs)
  have "list_all (\<lambda>b. 0 \<le> reserved_quantity b) (update_batch i
          (\<lambda>b. b\<lparr>reserved_quantity := max 0 (reserved_quantity b - r_quantity r)\<rparr>) db)" for i
    by (rule update_batch_all) (simp, rule Cons.prems)
  with Cons.IH Cons.prems show ?case by (simp split: option.splits)
qed

lemma confirm_loop_ok:
  assumes "list_all batch_ok db" and "\<forall>b \<in> set db. qsum rs (batch_id b) \<le> reserved_quantity b"
  shows "list_all batch_ok (fst (confirm_loop rs u ref db))"
  using assms by (auto simp: confirm_loop_db list_all_iff batch_ok_def)

lemma reserve_stock_ok:
  assumes d: "distinct (map batch_id db)" and ok: "list_all batch_ok db"
  shows "list_all batch_ok (snd (reserve_stock db pid q fifo))"
proof (cases "q \<le> total_available db pid")
  case False
  then show ?thesis using ok by (simp add: reserve_stock_insufficient)
next
  case True
  let ?rs = "fst (allocation (reservable_batches db pid fifo) q)"
  have "batch_ok (b\<lparr>reserved_quantity := reserved_quantity b + qsum ?rs (batch_id b)\<rparr>)"
    if b: "b \<in> set db" for b
  proof (cases "qsum ?rs (batch_id b) = 0")
    case True
    with ok b show ?thesis by (simp add: list_all_iff)
  next
    case False
    with bump_row(1)[OF d b, of pid fifo q] have pos: "0 < qsum ?rs (batch_id b)" by simp
    from bump_row(2)[OF d b pos] pos ok b show ?thesis
      by (simp add: list_all_iff batch_ok_def)
  qed
  then show ?thesis by (simp add: reserve_stock_sufficient(1)[OF True] list_all_iff)
qed

lemma get_batch_by_id_unique:
  "distinct (map batch_id db) \<Longrightarrow> get_batch_by_id db i = Some b \<Longrightarrow> c \<in> set db
   \<Longrightarrow> batch_id c = i \<Longrightarrow> c = b"
  using get_batch_by_id_Some[of db i b] by (auto dest: distinct_key_eq)

lemma adjust_stock_ok:
  assumes d: "distinct (map batch_id db)" and ok: "list_all batch_ok db"
  shows "list_all batch_ok (fst (snd (adjust_stock bid n u db)))
         \<longleftrightarrow> (case get_batch_by_id db bid of None \<Rightarrow> True
              | Some b \<Rightarrow> reserved_quantity b \<le> n)"
proof (cases "get_batch_by_id db bid")
  case None
  with ok show ?thesis by (simp add: adjust_stock_def)
next
  case (Some b)
  note u = get_batch_by_id_unique[OF d Some]
  from get_batch_by_id_Some[OF Some] have b: "b \<in> set db" "batch_id b = bid" by auto
  have "list_all batch_ok (update_batch bid (\<lambda>b. b\<lparr>current_quantity := n\<rparr>) db)
        \<longleftrightarrow> reserved_quantity b \<le> n"
  proof
    assume a: "list_all batch_ok (update_batch bid (\<lambda>b. b\<lparr>current_quantity := n\<rparr>) db)"
    from b have "b\<lparr>current_quantity := n\<rparr>
                   \<in> set (update_batch bid (\<lambda>b. b\<lparr>current_quantity := n\<rparr>) db)"
      by (force simp: update_batch_def)
    with a have "batch_ok (b\<lparr>current_quantity := n\<rparr>)" by (simp add: list_all_iff)
    then show "reserved_quantity b \<le> n" by (simp add: batch_ok_def)
  next
    assume "reserved_quantity b \<le> n"
    with ok u show "list_all batch_ok (update_batch bid (\<lambda>b. b\<lparr>current_quantity := n\<rparr>) db)"
      by (auto simp: update_batch_def list_all_iff batch_ok_def)
  qed
  with Some b show ?thesis by (simp add: adjust_stock_def Let_def)
qed

lemma mark_batch_expired_ok:
  assumes d: "distinct (map batch_id db)" and ok: "list_all batch_ok db"
  shows "list_all batch_ok (fst (snd (mark_batch_expired bid u db)))
         \<longleftrightarrow> (case get_batch_by_id db bid of None \<Rightarrow> True
              | Some b \<Rightarrow> reserved_quantity b = 0)"
proof (cases "get_batch_by_id db bid")
  case None
  with ok show ?thesis by (simp add: mark_batch_expired_def)
next
  case (Some b)
  note u = get_batch_by_id_unique[OF d Some]
  from get_batch_by_id_Some[OF Some] have b: "b \<in> set db" "batch_id b = bid" by auto
  from ok b have bok: "batch_ok b" by (simp add: list_all_iff)
  show ?thesis
  proof (cases "current_quantity b \<le> 0")
    case True
    with bok have "reserved_quantity b = 0" by (simp add: batch_ok_def)
    with True Some ok show ?thesis by (simp add: mark_batch_expired_def)
  next
    case False
    have "list_all batch_ok
            (update_batch bid (\<lambda>b. b\<lparr>is_expired := True, current_quantity := 0\<rparr>) db)
          \<longleftrightarrow> reserved_quantity b = 0"
    proof
      assume a: "list_all batch_ok
            (update_batch bid (\<lambda>b. b\<lparr>is_expired := True, current_quantity := 0\<rparr>) db)"
      from b have "b\<lparr>is_expired := True, current_quantity := 0\<rparr>
                   \<in> set (update_batch bid
                            (\<lambda>b. b\<lparr>is_expired := True, current_quantity := 0\<rparr>) db)"
        by (force simp: update_batch_def)
      with a have "batch_ok (b\<lparr>is_expired := True, current_quantity := 0\<rparr>)"
        by (simp add: list_all_iff)
      then show "reserved_quantity b = 0" by (simp add: batch_ok_def)
    next
      assume "reserved_quantity b = 0"
      with ok u show "list_all batch_ok
            (update_batch bid (\<lambda>b. b\<lparr>is_expired := True, current_quantity := 0\<rparr>) db)"
        by (auto simp: update_batch_def list_all_iff batch_ok_def)
    qed
    with Some b False show ?thesis by (simp add: mark_batch_expired_def)
  qed
qed

lemma allocation_positive:
  "r \<in> set (fst (allocation cs q)) \<Longrightarrow> 0 < r_quantity r"
  by (induction cs arbitrary: q) (auto simp: reservation_line_def split: if_splits)

lemma reserve_stock_lines_positive:
  assumes "reserve_stock db pid q fifo = (Inr rs, db')"
  shows "\<forall>r \<in> set rs. 0 \<le> r_quantity r"
proof -
  from assms have "rs = fst (allocation (reservable_batches db pid fifo) q)"
    by (auto simp: reserve_stock_def reserve_loop_allocation Let_def
        split: if_splits prod.splits option.splits)
  then show ?thesis using allocation_positive by fastforce
qed

subsection \<open>The summary queries\<close>

lemma unique_product:
  "distinct (map p_id ps) \<Longrightarrow>
   length (filter (\<lambda>p. p_id p = k \<and> R p) ps) = (if \<exists>p \<in> set ps. p_id p = k \<and> R p then 1 else 0)"
proof (induction ps)
  case Nil
  show ?case by simp
next
  case (Cons p ps)
  then have IH: "length (filter (\<lambda>p. p_id p = k \<and> R p) ps)
                  = (if \<exists>p \<in> set ps. p_id p = k \<and> R p then 1 else 0)"
    and new: "p_id p \<notin> p_id ` set ps" by auto
  show ?case
  proof (cases "p_id p = k \<and> R p")
    case True
    with new have "\<not> (\<exists>p \<in> set ps. p_id p = k \<and> R p)" by (metis imageI)
    with IH True show ?thesis by simp
  next
    case False
    with IH show ?thesis by auto
  qed
qed

lemma join_rows_batches:
  assumes "distinct (map p_id products)"
  shows "map fst (filter (\<lambda>(b, p). Q b \<and> p_is_active p) (join_product db products))
         = filter (\<lambda>b. Q b \<and> product_active products b) db"
proof (induction db)
  case Nil
  show ?case by (simp add: join_product_def)
next
  case (Cons b db)
  have split: "join_product (b # db) products
      = map (Pair b) (filter (\<lambda>p. p_id p = product_id b) products) @ join_product db products"
    by (simp add: join_product_def)
  have "map fst (filter (\<lambda>(b, p). Q b \<and> p_is_active p)
                   (map (Pair b) (filter (\<lambda>p. p_id p = product_id b) products)))
        = replicate (length (filter (\<lambda>p. p_id p = product_id b \<and> (Q b \<and> p_is_active p)) products)) b"
    by (induction products) auto
  also have "\<dots> = (if Q b \<and> product_active products b then [b] else [])"
    using unique_product[OF assms, of "product_id b" "\<lambda>p. Q b \<and> p_is_active p"]
    by (auto simp: product_active_def)
  finally show ?case using Cons.IH by (simp add: split)
qed

lemma aggregate_batches:
  "aggregate rows = batch_bucket (map fst rows)"
  by (simp add: aggregate_def batch_bucket_def comp_def case_prod_unfold)

lemma level_rows_batches:
  "distinct (map p_id products) \<Longrightarrow>
   map fst (level_rows today db products m) = window_batches today products db m"
proof -
  assume d: "distinct (map p_id products)"
  have "level_rows today db products m
        = filter (\<lambda>(b, p). (is_active b \<and> current_quantity b > 0
                     \<and> today \<le> expiry_date b \<and> expiry_date b \<le> today + m) \<and> p_is_active p)
            (join_product db products)"
    unfolding level_rows_def by (rule filter_cong) auto
  moreover have "window_batches today products db m
        = filter (\<lambda>b. (is_active b \<and> current_quantity b > 0
                     \<and> today \<le> expiry_date b \<and> expiry_date b \<le> today + m)
                     \<and> product_active products b) db"
    unfolding window_batches_def by (rule filter_cong) auto
  ultimately show ?thesis by (simp only: join_rows_batches[OF d])
qed

lemma expired_rows_batches:
  "distinct (map p_id products) \<Longrightarrow>
   map fst (expired_rows today db products) = expired_batches today products db"
proof -
  assume d: "distinct (map p_id products)"
  have "expired_rows today db products
        = filter (\<lambda>(b, p). (is_active b \<and> current_quantity b > 0 \<and> expiry_date b < today)
                     \<and> p_is_active p)
            (join_product db products)"
    unfolding expired_rows_def by (rule filter_cong) auto
  moreover have "expired_batches today products db
        = filter (\<lambda>b. (is_active b \<and> current_quantity b > 0 \<and> expiry_date b < today)
                     \<and> product_active products b) db"
    unfolding expired_batches_def by (rule filter_cong) auto
  ultimately show ?thesis by (simp only: join_rows_batches[OF d])
qed

subsection \<open>Rounding to a double\<close>

lemma round_half_even_of_int [simp]: "round_half_even (of_int k) = k"
  by (simp add: round_half_even_def)

lemma round_half_even_le: "x \<le> of_int k \<Longrightarrow> round_half_even x \<le> k"
proof -
  assume a: "x \<le> of_int k"
  then have fl: "\<lfloor>x\<rfloor> \<le> k" by (simp add: floor_le_iff)
  show ?thesis
  proof (cases "\<lfloor>x\<rfloor> = k")
    case True
    then have "x - of_int \<lfloor>x\<rfloor> \<le> 0" using a by simp
    then show ?thesis using True by (simp add: round_half_even_def Let_def)
  next
    case False
    then have "\<lfloor>x\<rfloor> + 1 \<le> k" using fl by simp
    then show ?thesis using fl by (simp add: round_half_even_def Let_def)
  qed
qed

lemma round_half_even_ge: "of_int k \<le> x \<Longrightarrow> k \<le> round_half_even x"
proof -
  assume "of_int k \<le> x"
  then have "k \<le> \<lfloor>x\<rfloor>" by (simp add: le_floor_iff)
  then show ?thesis by (simp add: round_half_even_def Let_def)
qed

lemma round_half_even_mono: "x \<le> y \<Longrightarrow> round_half_even x \<le> round_half_even y"
proof -
  assume xy: "x \<le> y"
  then have fl: "\<lfloor>x\<rfloor> \<le> \<lfloor>y\<rfloor>" by (rule floor_mono)
  show ?thesis
  proof (cases "\<lfloor>x\<rfloor> = \<lfloor>y\<rfloor>")
    case True
    with xy have "x - of_int \<lfloor>x\<rfloor> \<le> y - of_int \<lfloor>y\<rfloor>" by simp
    with True show ?thesis by (auto simp: round_half_even_def Let_def)
  next
    case False
    with fl have "\<lfloor>x\<rfloor> + 1 \<le> \<lfloor>y\<rfloor>" by simp
    moreover have "round_half_even x \<le> \<lfloor>x\<rfloor> + 1" by (simp add: round_half_even_def Let_def)
    moreover have "\<lfloor>y\<rfloor> \<le> round_half_even y" by (simp add: round_half_even_def Let_def)
    ultimately show ?thesis by linarith
  qed
qed

lemma bitlen_pos: "0 < n \<Longrightarrow> 1 \<le> bitlen n"
  using bitlen_eq_zero_iff[of n] bitlen_nonneg[of n] by linarith

lemma binade_bounds:
  assumes "0 < x"
  shows "2 powi binade x \<le> x" and "x < 2 powi (binade x + 1)"
proof -
  have "2 powi binade x \<le> x \<and> x < 2 powi (binade x + 1)"
  proof (cases "1 \<le> x")
    case True
    let ?n = "\<lfloor>x\<rfloor>"
    from True have n: "0 < ?n" by simp
    note b = bitlen_bounds[OF n] and bp = bitlen_pos[OF n]
    have e: "binade x = bitlen ?n - 1" using True by (simp add: binade_def)
    have lo: "(2::rat) powi (bitlen ?n - 1) = of_int (2 ^ nat (bitlen ?n - 1))"
      using bp by (simp add: power_int_nonneg_exp)
    have hi: "(2::rat) powi bitlen ?n = of_int (2 ^ nat (bitlen ?n))"
      using bp by (simp add: power_int_nonneg_exp)
    from b have "(of_int (2 ^ nat (bitlen ?n - 1)) :: rat) \<le> of_int ?n"
      by (simp only: of_int_le_iff)
    also have "\<dots> \<le> x" by simp
    finally have 1: "2 powi binade x \<le> x" by (simp only: e lo)
    from b have "?n + 1 \<le> 2 ^ nat (bitlen ?n)" by simp
    then have "(of_int (?n + 1) :: rat) \<le> of_int (2 ^ nat (bitlen ?n))"
      by (simp only: of_int_le_iff)
    moreover have "x < of_int (?n + 1)" using floor_correct[of x] by blast
    ultimately have "x < of_int (2 ^ nat (bitlen ?n))" by linarith
    then have 2: "x < 2 powi (binade x + 1)" by (simp only: e hi diff_add_cancel)
    from 1 2 show ?thesis ..
  next
    case False
    with assms have x1: "x < 1" by simp
    let ?y = "1 / x"
    from assms x1 have y1: "1 < ?y" by simp
    let ?n = "\<lceil>?y\<rceil> - 1"
    from y1 have "2 \<le> \<lceil>?y\<rceil>" by (simp add: le_ceiling_iff) 
    then have n: "0 < ?n" by simp
    note b = bitlen_bounds[OF n] and bp = bitlen_pos[OF n]
    have e: "binade x = - bitlen ?n" using False by (simp add: binade_def)
    have ny: "of_int ?n < ?y" using ceiling_correct[of ?y] by simp
    have yn: "?y \<le> of_int (?n + 1)" by (simp add: le_of_int_ceiling)
    from b have "?n + 1 \<le> 2 ^ nat (bitlen ?n)" by simp
    then have "(of_int (?n + 1) :: rat) \<le> of_int (2 ^ nat (bitlen ?n))"
      by (simp only: of_int_le_iff)
    with yn have "?y \<le> of_int (2 ^ nat (bitlen ?n))" by (rule order_trans)
    then have "?y \<le> 2 ^ nat (bitlen ?n)" by (simp only: of_int_power of_int_numeral)
    then have "1 / 2 ^ nat (bitlen ?n) \<le> x"
      using assms by (simp add: field_simps)
    moreover have "(2::rat) powi (- bitlen ?n) = 1 / 2 ^ nat (bitlen ?n)"
      using bp by (simp add: power_int_def field_simps)
    ultimately have 1: "2 powi binade x \<le> x" by (simp only: e)
    from b have "(of_int (2 ^ nat (bitlen ?n - 1)) :: rat) \<le> of_int ?n"
      by (simp only: of_int_le_iff)
    then have "of_int (2 ^ nat (bitlen ?n - 1)) < ?y" using ny by (rule le_less_trans)
    then have "2 ^ nat (bitlen ?n - 1) < ?y" by (simp only: of_int_power of_int_numeral)
    then have "x < 1 / 2 ^ nat (bitlen ?n - 1)"
      using assms by (simp add: field_simps)
    moreover have "(2::rat) powi (- bitlen ?n + 1) = 1 / 2 ^ nat (bitlen ?n - 1)"
    proof (cases "bitlen ?n = 1")
      case True
      then show ?thesis by simp
    next
      case False
      with bp have "- bitlen ?n + 1 < 0" by simp
      then show ?thesis
        by (simp add: power_int_def field_simps nat_diff_distrib) 
    qed
    ultimately have 2: "x < 2 powi (binade x + 1)" by (simp only: e)
    from 1 2 show ?thesis ..
  qed
  then show "2 powi binade x \<le> x" and "x < 2 powi (binade x + 1)" by simp_all
qed


lemma two_powi_split: "(2::rat) powi e = 2 ^ 52 * 2 powi (e - 52)"
proof -
  have "(2::rat) powi (52 + (e - 52)) = 2 powi 52 * 2 powi (e - 52)"
    by (rule power_int_add) simp
  then show ?thesis by simp
qed

lemma two_powi_Suc: "(2::rat) powi (e + 1) = 2 ^ 53 * 2 powi (e - 52)"
proof -
  have "(2::rat) powi (53 + (e - 52)) = 2 powi 53 * 2 powi (e - 52)"
    by (rule power_int_add) simp
  moreover have "53 + (e - 52) = e + 1" by simp
  ultimately show ?thesis by simp
qed

lemma to_double_pos:
  assumes "0 < x"
  shows "to_double x = of_int (round_half_even (x / 2 powi (binade x - 52))) * 2 powi (binade x - 52)"
    and "2 ^ 52 \<le> round_half_even (x / 2 powi (binade x - 52))"
    and "round_half_even (x / 2 powi (binade x - 52)) \<le> 2 ^ 53"
proof -
  let ?u = "(2::rat) powi (binade x - 52)"
  have u: "0 < ?u" by simp
  from assms show "to_double x = of_int (round_half_even (x / ?u)) * ?u"
    by (simp add: to_double_def Let_def)
  from binade_bounds(1)[OF assms] have "2 ^ 52 * ?u \<le> x" by (simp only: two_powi_split[symmetric])
  with u have "of_int (2 ^ 52) \<le> x / ?u" by (simp add: pos_le_divide_eq)
  then show "2 ^ 52 \<le> round_half_even (x / ?u)" by (rule round_half_even_ge)
  from binade_bounds(2)[OF assms] have "x \<le> 2 ^ 53 * ?u" by (simp only: two_powi_Suc[symmetric])
  with u have "x / ?u \<le> of_int (2 ^ 53)" by (simp add: pos_divide_le_eq)
  then show "round_half_even (x / ?u) \<le> 2 ^ 53" by (rule round_half_even_le)
qed

lemma to_double_range:
  assumes "0 < x"
  shows "2 powi binade x \<le> to_double x" and "to_double x \<le> 2 powi (binade x + 1)"
proof -
  let ?u = "(2::rat) powi (binade x - 52)"
  let ?m = "round_half_even (x / ?u)"
  have u: "0 < ?u" by simp
  note p = to_double_pos[OF assms]
  from p(2) have "(of_int (2 ^ 52) :: rat) \<le> of_int ?m" by (simp only: of_int_le_iff)
  with u have "2 ^ 52 * ?u \<le> of_int ?m * ?u" by simp
  then show "2 powi binade x \<le> to_double x" by (simp only: p(1) two_powi_split[symmetric])
  from p(3) have "(of_int ?m :: rat) \<le> of_int (2 ^ 53)" by (simp only: of_int_le_iff)
  with u have "of_int ?m * ?u \<le> 2 ^ 53 * ?u" by simp
  then show "to_double x \<le> 2 powi (binade x + 1)" by (simp only: p(1) two_powi_Suc[symmetric])
qed

lemma binade_mono:
  assumes "0 < x" and "x \<le> y"
  shows "binade x \<le> binade y"
proof (rule ccontr)
  assume "\<not> binade x \<le> binade y"
  then have "binade y + 1 \<le> binade x" by simp
  then have "(2::rat) powi (binade y + 1) \<le> 2 powi binade x"
    by (rule power_int_increasing) simp
  moreover from assms have y: "0 < y" by simp
  ultimately show False
    using binade_bounds(1)[OF assms(1)] binade_bounds(2)[OF y] assms(2) by linarith
qed

lemma to_double_nonneg: "0 \<le> x \<Longrightarrow> 0 \<le> to_double x"
proof (cases "x = 0")
  case True
  then show ?thesis by (simp add: to_double_def)
next
  case False
  assume "0 \<le> x"
  with False have x: "0 < x" by simp
  have "(0::rat) < 2 powi binade x" by simp
  with to_double_range(1)[OF x] show ?thesis by linarith
qed

lemma to_double_mono:
  assumes "0 \<le> x" and "x \<le> y"
  shows "to_double x \<le> to_double y"
proof (cases "x = 0")
  case True
  with assms to_double_nonneg[of y] show ?thesis by (simp add: to_double_def)
next
  case False
  with assms have x: "0 < x" and y: "0 < y" by simp_all
  from binade_mono[OF x assms(2)] consider "binade x = binade y" | "binade x + 1 \<le> binade y"
    by linarith
  then show ?thesis
  proof cases
    case 1
    let ?u = "(2::rat) powi (binade y - 52)"
    have u: "0 < ?u" by simp
    from assms(2) u have "x / ?u \<le> y / ?u" by (simp add: divide_right_mono)
    then have "round_half_even (x / ?u) \<le> round_half_even (y / ?u)" by (rule round_half_even_mono)
    then have "(of_int (round_half_even (x / ?u)) :: rat) \<le> of_int (round_half_even (y / ?u))"
      by (simp only: of_int_le_iff)
    with u have "of_int (round_half_even (x / ?u)) * ?u \<le> of_int (round_half_even (y / ?u)) * ?u"
      by simp
    then show ?thesis by (simp only: to_double_pos(1)[OF x] to_double_pos(1)[OF y] 1)
  next
    case 2
    then have "(2::rat) powi (binade x + 1) \<le> 2 powi binade y"
      by (rule power_int_increasing) simp
    with to_double_range(2)[OF x] to_double_range(1)[OF y] show ?thesis by linarith
  qed
qed


lemma to_double_consts:
  "to_double 1 = 1" "to_double (1 / 2) = 1 / 2" "to_double (3 / 2) = 3 / 2"
  "to_double (to_double (3 / 10)) = to_double (3 / 10)"
  "to_double (to_double (1 / 5)) = to_double (1 / 5)"
  "to_double (to_double (1 / 2 + to_double (3 / 10)) + to_double (1 / 5)) = 1"
  by code_simp+

lemma to_double_le:
  "0 \<le> x \<Longrightarrow> x \<le> y \<Longrightarrow> to_double y = y \<Longrightarrow> to_double x \<le> y"
  using to_double_mono[of x y] by simp

lemma py_round3_bounds:
  assumes "0 \<le> x"
  shows "0 \<le> py_round3 x"
    and "x \<le> of_int k / 1000 \<Longrightarrow> to_double (of_int k / 1000) = of_int k / 1000
         \<Longrightarrow> py_round3 x \<le> of_int k / 1000"
proof -
  from assms have "of_int 0 \<le> x * 1000" by simp
  then have n: "0 \<le> round_half_even (x * 1000)" by (rule round_half_even_ge)
  then have nn: "(0::rat) \<le> of_int (round_half_even (x * 1000)) / 1000" by simp
  then show "0 \<le> py_round3 x" unfolding py_round3_def by (rule to_double_nonneg)
  assume "x \<le> of_int k / 1000" and fx: "to_double (of_int k / 1000) = of_int k / 1000"
  then have "x * 1000 \<le> of_int k" by simp
  then have "round_half_even (x * 1000) \<le> k" by (rule round_half_even_le)
  then have "(of_int (round_half_even (x * 1000)) :: rat) / 1000 \<le> of_int k / 1000" by simp
  with nn fx show "py_round3 x \<le> of_int k / 1000"
    unfolding py_round3_def by (intro to_double_le)
qed

lemma weighted_bounds:
  assumes q: "0 \<le> q" and u: "0 \<le> u"
  shows "0 \<le> weighted d q u" and "0 \<le> d \<Longrightarrow> weighted d q u \<le> 1"
proof -
  let ?U = "to_double (of_int (max 0 (365 - d)) / 365)"
  let ?V = "min (to_double (to_double (to_double (of_int q) * u) / 1000)) 1"
  let ?Q = "min (to_double (of_int q / 100)) 1"
  let ?T1 = "to_double (?U * (1 / 2))"
  let ?T2 = "to_double (?V * to_double (3 / 10))"
  let ?T3 = "to_double (?Q * to_double (1 / 5))"
  let ?S1 = "to_double (?T1 + ?T2)"
  have c3: "0 \<le> to_double (3 / 10)" and c2: "0 \<le> to_double (1 / 5)"
    by (simp_all add: to_double_nonneg)
  have U0: "0 \<le> ?U" by (intro to_double_nonneg) simp
  have "0 \<le> to_double (of_int q)" using q by (intro to_double_nonneg) simp
  with u have "0 \<le> to_double (to_double (of_int q) * u)" by (intro to_double_nonneg) simp
  then have "0 \<le> to_double (to_double (to_double (of_int q) * u) / 1000)"
    by (intro to_double_nonneg) simp
  then have V0: "0 \<le> ?V" by simp
  have V1: "?V \<le> 1" by simp
  have "0 \<le> to_double (of_int q / 100)" using q by (intro to_double_nonneg) simp
  then have Q0: "0 \<le> ?Q" by simp
  have Q1: "?Q \<le> 1" by simp
  from U0 have T10: "0 \<le> ?T1" by (intro to_double_nonneg) simp
  from V0 c3 have T20: "0 \<le> ?T2" by (intro to_double_nonneg) simp
  from Q0 c2 have T30: "0 \<le> ?T3" by (intro to_double_nonneg) simp
  from T10 T20 have S10: "0 \<le> ?S1" by (intro to_double_nonneg) simp
  from S10 T30 show "0 \<le> weighted d q u"
    unfolding weighted_def by (intro to_double_nonneg) simp
  assume d: "0 \<le> d"
  then have "(of_int (max 0 (365 - d)) :: rat) / 365 \<le> 1" by simp
  then have U1: "?U \<le> 1" by (intro to_double_le) (simp_all add: to_double_consts)
  from U0 U1 have T11: "?T1 \<le> 1 / 2" by (intro to_double_le) (simp_all add: to_double_consts)
  from V0 V1 c3 have "?V * to_double (3 / 10) \<le> to_double (3 / 10)"
    by (simp add: mult_left_le_one_le)
  with V0 c3 have T21: "?T2 \<le> to_double (3 / 10)"
    by (intro to_double_le) (simp_all add: to_double_consts)
  from Q0 Q1 c2 have "?Q * to_double (1 / 5) \<le> to_double (1 / 5)"
    by (simp add: mult_left_le_one_le)
  with Q0 c2 have T31: "?T3 \<le> to_double (1 / 5)"
    by (intro to_double_le) (simp_all add: to_double_consts)
  from T10 T20 T11 T21 have S11: "?S1 \<le> to_double (1 / 2 + to_double (3 / 10))"
    by (intro to_double_mono) simp_all
  from S10 T30 S11 T31 have "to_double (?S1 + ?T3)
      \<le> to_double (to_double (1 / 2 + to_double (3 / 10)) + to_double (1 / 5))"
    by (intro to_double_mono) simp_all
  then show "weighted d q u \<le> 1" unfolding weighted_def by (simp only: to_double_consts)
qed

subsection \<open>The order of the alert rows\<close>



lemma days_make_alert [simp]:
  "days_until_expiry (make_alert s today row) = expiry_date (fst row) - today"
  by (simp add: make_alert_def Let_def)



section \<open>Alert-level classification\<close>

text \<open>
  Claim C4. With the default thresholds 7, 30, 90 and 180 the level of a batch is
  CRITICAL exactly when \<open>days \<le> 7\<close> (every negative number of days included), HIGH
  exactly when \<open>7 < days \<le> 30\<close>, MEDIUM exactly when \<open>30 < days \<le> 90\<close>, LOW exactly
  when \<open>90 < days \<le> 180\<close> and INFO exactly when \<open>180 < days\<close>; the eight boundary
  values 7, 8, 30, 31, 90, 91, 180, 181 fall as the specification lists them.
\<close>

theorem alert_level_default_thresholds:
  "(calculate_alert_level default_settings d = CRITICAL) = (d \<le> 7)
   \<and> (calculate_alert_level default_settings d = HIGH) = (7 < d \<and> d \<le> 30)
   \<and> (calculate_alert_level default_settings d = MEDIUM) = (30 < d \<and> d \<le> 90)
   \<and> (calculate_alert_level default_settings d = LOW) = (90 < d \<and> d \<le> 180)
   \<and> (calculate_alert_level default_settings d = INFO) = (180 < d)
   \<and> calculate_alert_level default_settings (- 1) = CRITICAL
   \<and> calculate_alert_level default_settings 7 = CRITICAL
   \<and> calculate_alert_level default_settings 8 = HIGH
   \<and> calculate_alert_level default_settings 30 = HIGH
   \<and> calculate_alert_level default_settings 31 = MEDIUM
   \<and> calculate_alert_level default_settings 90 = MEDIUM
   \<and> calculate_alert_level default_settings 91 = LOW
   \<and> calculate_alert_level default_settings 180 = LOW
   \<and> calculate_alert_level default_settings 181 = INFO"
  by (simp add: calculate_alert_level_def default_settings_def)

section \<open>Priority score\<close>

text \<open>
  Claim C5, as amended. The score is computed in double precision, every operation
  rounded. For every \<open>days_until_expiry\<close> (any signed integer), quantity \<open>\<ge> 0\<close>, unit
  price \<open>\<ge> 0\<close> and controlled flag, the score is \<open>\<ge> 0\<close>; when \<open>days_until_expiry \<ge> 0\<close>
  it lies in \<open>[0, 1.5]\<close> and exceeds 1.0 only when the controlled flag is set.
  (For negative \<open>days_until_expiry\<close> the urgency term \<open>max(0, 365 - days) / 365\<close>
  exceeds 1 and the upper bounds are lost: see the counterexample.)
\<close>

theorem priority_score_bounds:
  assumes "0 \<le> q" and "0 \<le> u"
  shows "0 \<le> calculate_priority_score d q u c
         \<and> (0 \<le> d \<longrightarrow> calculate_priority_score d q u c \<le> 3 / 2 \<and> (1 < calculate_priority_score d q u c \<longrightarrow> c))"
proof -
  let ?m = "if c then 3 / 2 else (1::rat)"
  let ?P = "to_double (weighted d q u * ?m)"
  have eq: "calculate_priority_score d q u c = py_round3 ?P"
    by (simp add: calculate_priority_score_def weighted_def Let_def)
  note wb = weighted_bounds[OF assms, of d]
  have m0: "0 \<le> ?m" by simp
  have fixm: "to_double ?m = ?m" by (simp add: to_double_consts)
  from wb(1) m0 have P0: "0 \<le> ?P" by (intro to_double_nonneg) simp
  from py_round3_bounds(1)[OF P0] have lo: "0 \<le> calculate_priority_score d q u c" by (simp only: eq)
  have hi: "calculate_priority_score d q u c \<le> 3 / 2 \<and> (1 < calculate_priority_score d q u c \<longrightarrow> c)" if d: "0 \<le> d"
  proof -
    from wb(2)[OF d] m0 have "weighted d q u * ?m \<le> ?m" by (simp add: mult_left_le_one_le)
    with wb(1) m0 fixm have P1: "?P \<le> ?m" by (intro to_double_le) simp_all
    show ?thesis
    proof (cases c)
      case True
      with P1 have "?P \<le> of_int 1500 / 1000" by simp
      moreover have "to_double (of_int 1500 / 1000) = of_int 1500 / 1000"
        by (simp add: to_double_consts)
      ultimately have "py_round3 ?P \<le> of_int 1500 / 1000" by (rule py_round3_bounds(2)[OF P0])
      then have "calculate_priority_score d q u c \<le> 3 / 2" unfolding eq by simp
      with True show ?thesis by blast
    next
      case False
      with P1 have "?P \<le> of_int 1000 / 1000" by simp
      moreover have "to_double (of_int 1000 / 1000) = of_int 1000 / 1000"
        by (simp add: to_double_consts)
      ultimately have "py_round3 ?P \<le> of_int 1000 / 1000" by (rule py_round3_bounds(2)[OF P0])
      then have "calculate_priority_score d q u c \<le> 1" unfolding eq by simp
      then show ?thesis by simp
    qed
  qed
  from lo hi show ?thesis by blast
qed

text \<open>
  Three values, as the doubles nearest to the decimals Python prints: 1.036 for the
  3-day batch of the test fixture with the controlled flag, and 0.519 and 0.611 at two
  inputs where the exact weighted sum lies on a rounding boundary (0.5195 and 0.6105)
  and the operations in double precision fall below it.
\<close>

lemma priority_score_fixture:
  "calculate_priority_score 3 30 15 True = to_double (1036 / 1000)"
  by code_simp

lemma priority_score_rounded_down:
  "calculate_priority_score 0 3 15 False = to_double (519 / 1000)"
  by code_simp

lemma priority_score_rounded_down_flagged:
  "calculate_priority_score 73 2 5 True = to_double (611 / 1000)"
  by code_simp

theorem priority_score_bounds_witness:
  "0 \<le> calculate_priority_score 3 30 15 True
   \<and> calculate_priority_score 3 30 15 True \<le> 3 / 2
   \<and> 1 < calculate_priority_score 3 30 15 True
   \<and> \<not> 1 < calculate_priority_score 3 30 15 False"
proof -
  have "(1::rat) < to_double (1036 / 1000)" by code_simp
  then have v: "1 < calculate_priority_score 3 30 15 True"
    by (simp only: priority_score_fixture)
  show ?thesis
    using priority_score_bounds[of 30 15 3 True] priority_score_bounds[of 30 15 3 False] v
    by simp
qed

text \<open>
  A batch that expired 365 days ago, 100 units at 10 a unit: the score is 2.25 with the
  controlled flag and 1.5 (above 1.0) without it.
\<close>

lemma priority_score_expired_flagged: "calculate_priority_score (- 365) 100 10 True = 9 / 4"
  by code_simp

lemma priority_score_expired_plain: "calculate_priority_score (- 365) 100 10 False = 3 / 2"
  by code_simp

theorem priority_score_unbounded_counterexample:
  "calculate_priority_score (- 365) 100 10 True = 9 / 4
   \<and> \<not> calculate_priority_score (- 365) 100 10 True \<le> 3 / 2
   \<and> calculate_priority_score (- 365) 100 10 False = 3 / 2
   \<and> 1 < calculate_priority_score (- 365) 100 10 False"
  by (simp add: priority_score_expired_flagged priority_score_expired_plain)

section \<open>Recommended action\<close>

text \<open>
  Claim C9, as amended. The recommended action depends on the alert level and the
  quantity only (not on the number of days), by the level and quantity thresholds of
  the specification's table, and the string returned is the source's: it carries the
  prefix \<open>URGENT: \<close> (and \<open>Consider\<close>, \<open>Implement\<close>) and a capital first letter,
  and ends, up to letter case, with the phrase the specification lists.
\<close>

theorem recommended_action_strings:
  "get_recommended_action d q l =
     (case l of
        CRITICAL \<Rightarrow> if q > 50 then ''URGENT: Consider bulk discount sale or return to supplier''
                    else ''URGENT: Prioritize sale or mark for disposal''
      | HIGH \<Rightarrow> if q > 100 then ''Implement promotional pricing or contact supplier for return''
                else ''Prioritize in sales recommendations''
      | MEDIUM \<Rightarrow> ''Monitor closely and consider promotional strategies''
      | LOW \<Rightarrow> ''Plan inventory rotation and adjust reorder quantities''
      | INFO \<Rightarrow> ''Monitor for future planning'')
   \<and> get_recommended_action d q l = get_recommended_action d' q l
   \<and> suffix (spec_recommended_action l q) (map ascii_lower (get_recommended_action d q l))"
  by (cases l) (simp_all add: suffix_to_prefix ascii_lower_def)

text \<open>
  A CRITICAL batch of 60 units and a LOW batch of 10 units: the strings returned are
  not the specification's.
\<close>

theorem recommended_action_counterexample:
  "get_recommended_action 3 60 CRITICAL \<noteq> spec_recommended_action CRITICAL 60
   \<and> get_recommended_action 3 60 CRITICAL
       = ''URGENT: Consider bulk discount sale or return to supplier''
   \<and> get_recommended_action 120 10 LOW \<noteq> spec_recommended_action LOW 10"
  by simp

section \<open>Order of the alert list\<close>


text \<open>
  Two batches of 100 units at 10 a unit, expiring in 500 and in 400 days and stored in
  that order: both alerts score 0.5 (the urgency term is 0 from 365 days on).
\<close>

lemma priority_score_far:
  "365 \<le> d \<Longrightarrow> calculate_priority_score d q u c = calculate_priority_score 365 q u c"
  by (simp add: calculate_priority_score_def)

lemma priority_score_tie: "calculate_priority_score 365 100 (to_double 10) False = 1 / 2"
  by code_simp

lemma tie_alerts:
  "make_alert default_settings 0 (tie_batch_500, test_product)
   = \<lparr>a_batch_id = 1, a_product_id = 1, a_product_name = ''Test Medicine'',
       a_batch_number = ''B500'', a_current_quantity = 100, a_expiry_date = 500,
       days_until_expiry = 500, alert_level = INFO, estimated_value = to_double 1000,
       recommended_action = ''Monitor for future planning'', priority_score = 1 / 2\<rparr>"
  "make_alert default_settings 0 (tie_batch_400, test_product)
   = \<lparr>a_batch_id = 2, a_product_id = 1, a_product_name = ''Test Medicine'',
       a_batch_number = ''B400'', a_current_quantity = 100, a_expiry_date = 400,
       days_until_expiry = 400, alert_level = INFO, estimated_value = to_double 1000,
       recommended_action = ''Monitor for future planning'', priority_score = 1 / 2\<rparr>"
  by (simp_all add: make_alert_def tie_batch_500_def tie_batch_400_def test_product_def
      default_settings_def calculate_alert_level_def priority_score_far priority_score_tie)


text \<open>
  With \<open>include_expired = False\<close> the same two batches come in the order of their
  expiry dates.
\<close>

lemma alerts_index_order_example:
  "map (\<lambda>a. (a_batch_id a, priority_score a, days_until_expiry a))
     (get_expiry_alerts default_settings 0 [tie_batch_500, tie_batch_400] [test_product]
        None 1 False)
   = [(2, 1 / 2, 400), (1, 1 / 2, 500)]"
proof -
  have "alert_rows 0 [tie_batch_500, tie_batch_400] [test_product] 1 False
        = [(tie_batch_400, test_product), (tie_batch_500, test_product)]"
    by (simp add: alert_rows_def join_product_def tie_batch_500_def tie_batch_400_def
        test_product_def)
  then show ?thesis
    by (simp add: get_expiry_alerts_def collect_alerts_def tie_alerts)
qed

section \<open>Reservation: all or nothing\<close>

text \<open>
  Claim C1, as amended. Let the batch ids be distinct (\<open>id\<close> is the primary key) and
  let the total available quantity be the sum of \<open>current_quantity - reserved_quantity\<close>
  over the batches the query selects. If the total is at least the requested quantity,
  \<open>reserve_stock\<close> returns a reservation whose line quantities sum to the requested
  quantity when that is not negative, and to 0 (an empty reservation) when it is
  negative; every batch is left as it was or has its \<open>reserved_quantity\<close> raised to at
  most its \<open>current_quantity\<close>. Otherwise \<open>reserve_stock\<close> raises the error, with the
  requested and the available quantity, and every batch is as before the call.
\<close>

theorem reserve_stock_all_or_nothing:
  assumes "distinct (map batch_id db)"
  shows "(q \<le> total_available db pid \<longrightarrow>
            (\<exists>rs db'. reserve_stock db pid q fifo = (Inr rs, db')
               \<and> sum_list (map r_quantity rs) = max 0 q
               \<and> length db' = length db
               \<and> (\<forall>i<length db. db' ! i = db ! i
                      \<or> (reserved_quantity (db ! i) < reserved_quantity (db' ! i)
                          \<and> reserved_quantity (db' ! i) \<le> current_quantity (db' ! i)
                          \<and> db' ! i = (db ! i)\<lparr>reserved_quantity := reserved_quantity (db' ! i)\<rparr>))))
       \<and> (total_available db pid < q \<longrightarrow>
            reserve_stock db pid q fifo
              = (Inl (ValueError q (total_available db pid)), db))"
proof (intro conjI impI)
  assume "total_available db pid < q"
  then show "reserve_stock db pid q fifo
              = (Inl (ValueError q (total_available db pid)), db)"
    by (rule reserve_stock_insufficient)
next
  assume le: "q \<le> total_available db pid"
  let ?rs = "fst (allocation (reservable_batches db pid fifo) q)"
  let ?db' = "map (\<lambda>b. b\<lparr>reserved_quantity := reserved_quantity b + qsum ?rs (batch_id b)\<rparr>) db"
  have rows: "?db' ! i = db ! i
        \<or> (reserved_quantity (db ! i) < reserved_quantity (?db' ! i)
            \<and> reserved_quantity (?db' ! i) \<le> current_quantity (?db' ! i)
            \<and> ?db' ! i = (db ! i)\<lparr>reserved_quantity := reserved_quantity (?db' ! i)\<rparr>)"
    if i: "i < length db" for i
  proof -
    from i have b: "db ! i \<in> set db" by simp
    show ?thesis
    proof (cases "qsum ?rs (batch_id (db ! i)) = 0")
      case True
      with i show ?thesis by simp
    next
      case False
      with bump_row(1)[OF assms b, of pid fifo q]
      have pos: "0 < qsum ?rs (batch_id (db ! i))" by simp
      from bump_row(2)[OF assms b pos] pos i show ?thesis by simp
    qed
  qed
  from reserve_stock_sufficient[OF le, of fifo] rows
  show "\<exists>rs db'. reserve_stock db pid q fifo = (Inr rs, db')
               \<and> sum_list (map r_quantity rs) = max 0 q
               \<and> length db' = length db
               \<and> (\<forall>i<length db. db' ! i = db ! i
                      \<or> (reserved_quantity (db ! i) < reserved_quantity (db' ! i)
                          \<and> reserved_quantity (db' ! i) \<le> current_quantity (db' ! i)
                          \<and> db' ! i = (db ! i)\<lparr>reserved_quantity := reserved_quantity (db' ! i)\<rparr>))"
    by (intro exI[of _ ?rs] exI[of _ ?db']) simp
qed

theorem reserve_stock_all_or_nothing_witness:
  "distinct (map batch_id fixture_db)
   \<and> 40 \<le> total_available fixture_db 1
   \<and> (\<exists>rs db'. reserve_stock fixture_db 1 40 True = (Inr rs, db')
         \<and> sum_list (map r_quantity rs) = 40 \<and> length db' = 3)
   \<and> fst (reserve_stock fixture_db 1 40 True) = Inr fixture_reservation
   \<and> map r_quantity fixture_reservation = [30, 10]
   \<and> map reserved_quantity (snd (reserve_stock fixture_db 1 40 True)) = [0, 30, 10]
   \<and> total_available fixture_db 1 < 1000
   \<and> reserve_stock fixture_db 1 1000 True = (Inl (ValueError 1000 255), fixture_db)"
proof -
  have d: "distinct (map batch_id fixture_db)" by code_simp
  have t: "total_available fixture_db 1 = 255" by code_simp
  have l: "length fixture_db = 3" by code_simp
  have e1: "fst (reserve_stock fixture_db 1 40 True) = Inr fixture_reservation"
    "map r_quantity fixture_reservation = [30, 10]"
    by code_simp+
  have e2: "map reserved_quantity (snd (reserve_stock fixture_db 1 40 True)) = [0, 30, 10]"
    by code_simp
  from reserve_stock_all_or_nothing[OF d, of 40 1 True] t l
  have ok: "\<exists>rs db'. reserve_stock fixture_db 1 40 True = (Inr rs, db')
         \<and> sum_list (map r_quantity rs) = 40 \<and> length db' = 3"
    by auto
  from reserve_stock_all_or_nothing[OF d, of 1000 1 True] t
  have bad: "reserve_stock fixture_db 1 1000 True = (Inl (ValueError 1000 255), fixture_db)"
    by simp
  from d t e1 e2 ok bad show ?thesis by simp
qed

text \<open>
  A request for \<open>- 5\<close> units: the total available, 255, is at least the request, the call
  succeeds with the empty reservation, and its quantities sum to 0, not to \<open>- 5\<close>.
\<close>

theorem reserve_stock_negative_counterexample:
  "- 5 \<le> total_available fixture_db 1
   \<and> reserve_stock fixture_db 1 (- 5) True = (Inr [], fixture_db)
   \<and> sum_list (map r_quantity ([] :: reservation list)) \<noteq> - 5"
  by code_simp

section \<open>Reservation of a non-positive quantity\<close>

text \<open>
  Claim C10. For every product and every requested quantity \<open>\<le> 0\<close>, \<open>reserve_stock\<close>
  returns normally with the empty reservation list and leaves every batch (so its
  \<open>reserved_quantity\<close> and its \<open>current_quantity\<close>) unchanged.
\<close>

theorem reserve_stock_nonpositive:
  "q \<le> 0 \<Longrightarrow> reserve_stock db pid q fifo = (Inr [], db)"
  by (simp add: reserve_stock_def reserve_loop_allocation allocation_nonpos map_idI)

theorem reserve_stock_nonpositive_witness:
  "(0::int) \<le> 0 \<and> reserve_stock fixture_db 1 0 True = (Inr [], fixture_db)
   \<and> (- 3::int) \<le> 0 \<and> reserve_stock fixture_db 1 (- 3) False = (Inr [], fixture_db)"
  using reserve_stock_nonpositive[of 0 fixture_db 1 True]
    reserve_stock_nonpositive[of "- 3" fixture_db 1 False]
  by simp

section \<open>Reservation: order and greedy allocation\<close>

text \<open>
  Claim C2, as amended. Under the default FIFO policy \<open>reserve_stock\<close> considers exactly
  the product's active batches with \<open>current_quantity > reserved_quantity\<close> (it tests
  neither the \<open>is_expired\<close> flag nor the expiry date), in ascending order of
  \<open>expiry_date\<close>. A successful call takes from the batches in that order: line \<open>i\<close>
  is for batch \<open>i\<close> and takes the minimum of what is still needed (the request minus
  what the batches before it had available) and of what batch \<open>i\<close> has available; a
  batch is visited only while the request is not met, and the lines stop before the
  end of the list only once the request is met; the \<open>reserved_quantity\<close> of every
  batch is raised by the quantity of the lines that name it, and nothing else
  changes. For the fixture batches expiring in
  3, 20 and 60 days with 30, 75 and 150 units, a request for 40 units takes 30 from the
  3-day batch and 10 from the 20-day batch.
\<close>

theorem reserve_stock_fifo_greedy:
  "sorted (map expiry_date (reservable_batches db pid True))
   \<and> mset (reservable_batches db pid True)
       = filter_mset (\<lambda>b. product_id b = pid \<and> is_active b
                           \<and> reserved_quantity b < current_quantity b) (mset db)
   \<and> (reserve_stock db pid q True = (Inr rs, db') \<longrightarrow>
        length rs \<le> length (reservable_batches db pid True)
        \<and> (\<forall>i<length rs.
              rs ! i = reservation_line (reservable_batches db pid True ! i)
                         (min (q - prefix_available (reservable_batches db pid True) i)
                              (available (reservable_batches db pid True ! i)))
              \<and> prefix_available (reservable_batches db pid True) i < q)
        \<and> (length rs < length (reservable_batches db pid True) \<longrightarrow>
              q \<le> prefix_available (reservable_batches db pid True) (length rs))
        \<and> db' = map (\<lambda>b. b\<lparr>reserved_quantity :=
                                 reserved_quantity b + qsum rs (batch_id b)\<rparr>) db)
   \<and> fst (reserve_stock fixture_db 1 40 True) = Inr fixture_reservation
   \<and> map (\<lambda>r. (r_batch_id r, r_expiry_date r, r_quantity r)) fixture_reservation
       = [(1, 3, 30), (2, 20, 10)]"
proof -
  let ?cs = "reservable_batches db pid True"
  have av: "\<forall>c \<in> set ?cs. 0 < available c" using available_reservable by blast
  have 1: "sorted (map expiry_date ?cs)" by (rule sorted_reservable_batches)
  have 2: "mset ?cs = filter_mset (\<lambda>b. product_id b = pid \<and> is_active b
                           \<and> reserved_quantity b < current_quantity b) (mset db)"
  proof -
    have "reservable pid = (\<lambda>b. product_id b = pid \<and> is_active b
                           \<and> reserved_quantity b < current_quantity b)"
      by (auto simp: reservable_def fun_eq_iff)
    then show ?thesis by (simp add: mset_reservable_batches)
  qed
  have 3: "length rs \<le> length ?cs
        \<and> (\<forall>i<length rs.
              rs ! i = reservation_line (?cs ! i)
                         (min (q - prefix_available ?cs i) (available (?cs ! i)))
              \<and> prefix_available ?cs i < q)
        \<and> (length rs < length ?cs \<longrightarrow> q \<le> prefix_available ?cs (length rs))
        \<and> db' = map (\<lambda>b. b\<lparr>reserved_quantity :=
                                 reserved_quantity b + qsum rs (batch_id b)\<rparr>) db"
    if ok: "reserve_stock db pid q True = (Inr rs, db')"
  proof -
    have enough: "q \<le> total_available db pid"
    proof (rule ccontr)
      assume "\<not> q \<le> total_available db pid"
      then have "total_available db pid < q" by simp
      from reserve_stock_insufficient[OF this, of True] ok show False by simp
    qed
    from reserve_stock_sufficient(1)[OF enough, of True] ok
    have rs: "rs = fst (allocation ?cs q)"
      and db': "db' = map (\<lambda>b. b\<lparr>reserved_quantity :=
                                  reserved_quantity b + qsum rs (batch_id b)\<rparr>) db"
      by simp_all
    have "length rs \<le> length ?cs
        \<and> (\<forall>i<length rs.
              rs ! i = reservation_line (?cs ! i)
                         (min (q - prefix_available ?cs i) (available (?cs ! i)))
              \<and> prefix_available ?cs i < q)
        \<and> (length rs < length ?cs \<longrightarrow> q \<le> prefix_available ?cs (length rs))"
      unfolding rs using allocation_length allocation_greedy[OF av] allocation_stops[OF av]
      by blast
    with db' show ?thesis by blast
  qed
  have 4: "fst (reserve_stock fixture_db 1 40 True) = Inr fixture_reservation
   \<and> map (\<lambda>r. (r_batch_id r, r_expiry_date r, r_quantity r)) fixture_reservation
       = [(1, 3, 30), (2, 20, 10)]"
    by code_simp
  from 1 2 3 4 show ?thesis by blast
qed

theorem reserve_stock_fifo_greedy_witness:
  "reserve_stock fixture_db 1 40 True
     = (Inr [reservation_line (fixture_db ! 1) 30, reservation_line (fixture_db ! 2) 10],
        [fixture_db ! 0, (fixture_db ! 1)\<lparr>reserved_quantity := 30\<rparr>,
         (fixture_db ! 2)\<lparr>reserved_quantity := 10\<rparr>])
   \<and> map expiry_date (reservable_batches fixture_db 1 True) = [3, 20, 60]
   \<and> (2::nat) \<le> length (reservable_batches fixture_db 1 True)
   \<and> [reservation_line (fixture_db ! 1) 30, reservation_line (fixture_db ! 2) 10] ! 1
        = reservation_line (reservable_batches fixture_db 1 True ! 1)
            (min (40 - prefix_available (reservable_batches fixture_db 1 True) 1)
               (available (reservable_batches fixture_db 1 True ! 1)))
   \<and> prefix_available (reservable_batches fixture_db 1 True) 1 < 40
   \<and> 40 \<le> prefix_available (reservable_batches fixture_db 1 True) 2
   \<and> [fixture_db ! 0, (fixture_db ! 1)\<lparr>reserved_quantity := 30\<rparr>,
       (fixture_db ! 2)\<lparr>reserved_quantity := 10\<rparr>]
       = map (\<lambda>b. b\<lparr>reserved_quantity := reserved_quantity b
                + qsum [reservation_line (fixture_db ! 1) 30, reservation_line (fixture_db ! 2) 10]
                    (batch_id b)\<rparr>) fixture_db
   \<and> map (\<lambda>b. (batch_id b, reserved_quantity b))
        [fixture_db ! 0, (fixture_db ! 1)\<lparr>reserved_quantity := 30\<rparr>,
         (fixture_db ! 2)\<lparr>reserved_quantity := 10\<rparr>]
       = [(3, 0), (1, 30), (2, 10)]"
proof -
  let ?rs = "[reservation_line (fixture_db ! 1) 30, reservation_line (fixture_db ! 2) 10]"
  let ?db' = "[fixture_db ! 0, (fixture_db ! 1)\<lparr>reserved_quantity := 30\<rparr>,
         (fixture_db ! 2)\<lparr>reserved_quantity := 10\<rparr>]"
  let ?cs = "reservable_batches fixture_db 1 True"
  have e: "reserve_stock fixture_db 1 40 True = (Inr ?rs, ?db')" by code_simp
  have x: "map expiry_date ?cs = [3, 20, 60]" by code_simp
  have l: "length ?cs = 3" by code_simp
  then have l2: "(2::nat) \<le> length ?cs" by simp
  have v: "map (\<lambda>b. (batch_id b, reserved_quantity b)) ?db' = [(3, 0), (1, 30), (2, 10)]"
    by code_simp
  note t = reserve_stock_fifo_greedy[of fixture_db 1 40 ?rs ?db']
  note g = mp[OF conjunct1[OF conjunct2[OF conjunct2[OF t]]] e]
  note ga = conjunct1[OF conjunct2[OF g]]
  note gb = conjunct1[OF conjunct2[OF conjunct2[OF g]]]
  note g3 = conjunct2[OF conjunct2[OF conjunct2[OF g]]]
  have one: "1 < length ?rs" by simp
  note g1 = mp[OF spec[OF ga, of 1] one]
  note g1a = conjunct1[OF g1] and g1b = conjunct2[OF g1]
  have "length ?rs < length ?cs" using l by simp
  with gb have "40 \<le> prefix_available ?cs (length ?rs)" by (rule mp)
  then have g2: "40 \<le> prefix_available ?cs 2" by (simp add: numeral_2_eq_2)
  show ?thesis by (intro conjI) (fact e x l2 g1a g1b g2 g3 v)+
qed

text \<open>
  Two active batches past their expiry date, one of them flagged \<open>is_expired\<close>: a
  request for 15 units is served from them, 10 from the flagged batch (the earliest
  expiry date) and 5 from the other.
\<close>

theorem reserve_stock_expired_counterexample:
  "map (\<lambda>b. (batch_id b, is_active b, is_expired b, expiry_date b)) expired_db
     = [(1, True, False, - 5), (2, True, True, - 30)]
   \<and> fst (reserve_stock expired_db 1 15 True)
       = Inr [reservation_line (expired_db ! 1) 10, reservation_line (expired_db ! 0) 5]
   \<and> map reserved_quantity (snd (reserve_stock expired_db 1 15 True)) = [5, 10]"
  by code_simp

section \<open>Confirming a sale\<close>

text \<open>
  Claim C7, as amended. \<open>confirm_sale\<close> never fails. A reservation line whose batch
  does not exist is skipped without a movement record and the remaining lines are
  processed; every other line is applied whatever the quantities of its batch are:
  \<open>current_quantity\<close> and \<open>reserved_quantity\<close> both go down by the line's quantity
  (below zero if need be) and one SALE movement with the negated quantity is recorded.
\<close>

theorem confirm_sale_never_fails:
  "\<exists>db' ms. confirm_sale rs u ref db = Inr (db', ms)
     \<and> db' = map (\<lambda>b. b\<lparr>current_quantity := current_quantity b - qsum rs (batch_id b),
                          reserved_quantity := reserved_quantity b - qsum rs (batch_id b)\<rparr>) db
     \<and> map (\<lambda>m. (m_batch_id m, m_quantity m, m_type m, m_user_id m, m_reference m)) ms
         = map (\<lambda>r. (r_batch_id r, - r_quantity r, SALE, u, Some ref))
             (filter (\<lambda>r. r_batch_id r \<in> batch_id ` set db) rs)"
proof -
  have "confirm_sale rs u ref db
          = Inr (fst (confirm_loop rs u ref db), snd (confirm_loop rs u ref db))"
    by (simp add: confirm_sale_def)
  with confirm_loop_db[of rs u ref db] confirm_loop_movements[of rs u ref db]
  show ?thesis by blast
qed

text \<open>
  A line for a batch 99 that does not exist, then a line of 40 units for a batch with
  30 units of which none is reserved: the call returns normally, the first line is
  skipped, the second is applied and leaves \<open>current_quantity = - 10\<close> and
  \<open>reserved_quantity = - 40\<close>.
\<close>

theorem confirm_sale_skips_counterexample:
  "confirm_sale
     [\<lparr>r_batch_id = 99, r_batch_number = ''GONE'', r_quantity = 5, r_unit_price = 15,
       r_expiry_date = 3\<rparr>,
      reservation_line (fixture_db ! 1) 40] 7 ''POS1'' fixture_db
   = Inr ([fixture_db ! 0,
           (fixture_db ! 1)\<lparr>current_quantity := - 10, reserved_quantity := - 40\<rparr>,
           fixture_db ! 2],
          [record_stock_movement 1 1 (- 40) SALE 7 (Some ''POS1'')])
   \<and> get_batch_by_id fixture_db 99 = None
   \<and> current_quantity (fixture_db ! 1) = 30 \<and> reserved_quantity (fixture_db ! 1) = 0"
  by code_simp

section \<open>The batch invariant\<close>

text \<open>
  Claim C3, as amended. Let the batch ids be distinct and let every batch satisfy
  \<open>0 \<le> reserved_quantity \<le> current_quantity\<close>. Then the invariant holds after
  \<open>reserve_stock\<close> (success or failure); after \<open>release_reservation\<close> of a reservation
  whose line quantities are not negative, in particular after releasing, once or
  twice, the reservation that \<open>reserve_stock\<close> returned; after releasing any
  reservation twice no \<open>reserved_quantity\<close> is below zero; it holds after
  \<open>confirm_sale\<close> when every batch has at least as much reserved as the lines that
  name it sum to; after \<open>adjust_stock\<close> exactly when the batch does not exist or the
  new quantity is at least its \<open>reserved_quantity\<close>; and after \<open>mark_batch_expired\<close>
  exactly when the batch does not exist or has nothing reserved.
\<close>

theorem batch_invariant_preserved:
  assumes "distinct (map batch_id db)" and "list_all batch_ok db"
  shows "list_all batch_ok (snd (reserve_stock db pid q fifo))
       \<and> (reserve_stock db pid q fifo = (Inr rs', db') \<longrightarrow>
            list_all batch_ok (release_reservation rs' db')
            \<and> list_all batch_ok (release_reservation rs' (release_reservation rs' db')))
       \<and> ((\<forall>r \<in> set rs. 0 \<le> r_quantity r) \<longrightarrow> list_all batch_ok (release_reservation rs db))
       \<and> list_all (\<lambda>b. 0 \<le> reserved_quantity b)
            (release_reservation rs (release_reservation rs db))
       \<and> ((\<forall>b \<in> set db. qsum rs (batch_id b) \<le> reserved_quantity b) \<longrightarrow>
            (\<exists>db'' ms. confirm_sale rs u ref db = Inr (db'', ms) \<and> list_all batch_ok db''))
       \<and> (list_all batch_ok (fst (snd (adjust_stock bid n u db)))
            \<longleftrightarrow> (case get_batch_by_id db bid of None \<Rightarrow> True
                 | Some b \<Rightarrow> reserved_quantity b \<le> n))
       \<and> (list_all batch_ok (fst (snd (mark_batch_expired bid u db)))
            \<longleftrightarrow> (case get_batch_by_id db bid of None \<Rightarrow> True
                 | Some b \<Rightarrow> reserved_quantity b = 0))"
proof -
  note d = assms(1) and ok = assms(2)
  have 1: "list_all batch_ok (snd (reserve_stock db pid q fifo))"
    using d ok by (rule reserve_stock_ok)
  have 2: "list_all batch_ok (release_reservation rs' db')
            \<and> list_all batch_ok (release_reservation rs' (release_reservation rs' db'))"
    if r: "reserve_stock db pid q fifo = (Inr rs', db')"
  proof -
    from 1 r have ok': "list_all batch_ok db'" by simp
    note pos = reserve_stock_lines_positive[OF r]
    from release_reservation_ok[OF pos ok']
      release_reservation_ok[OF pos release_reservation_ok[OF pos ok']]
    show ?thesis by simp
  qed
  have 3: "list_all batch_ok (release_reservation rs db)" if "\<forall>r \<in> set rs. 0 \<le> r_quantity r"
    using that ok by (rule release_reservation_ok)
  from ok have "list_all (\<lambda>b. 0 \<le> reserved_quantity b) db"
    by (simp add: list_all_iff batch_ok_def)
  then have 4: "list_all (\<lambda>b. 0 \<le> reserved_quantity b)
            (release_reservation rs (release_reservation rs db))"
    by (intro release_reservation_nonneg)
  have 5: "\<exists>db'' ms. confirm_sale rs u ref db = Inr (db'', ms) \<and> list_all batch_ok db''"
    if "\<forall>b \<in> set db. qsum rs (batch_id b) \<le> reserved_quantity b"
    using confirm_loop_ok[OF ok that, of u ref]
    by (intro exI[of _ "fst (confirm_loop rs u ref db)"] exI[of _ "snd (confirm_loop rs u ref db)"])
       (simp add: confirm_sale_def)
  note 6 = adjust_stock_ok[OF d ok, of bid n u]
  note 7 = mark_batch_expired_ok[OF d ok, of bid u]
  from 1 2 3 4 5 6 7 show ?thesis by blast
qed

theorem batch_invariant_preserved_witness:
  "distinct (map batch_id fixture_db) \<and> list_all batch_ok fixture_db
   \<and> distinct (map batch_id reserved_db) \<and> list_all batch_ok reserved_db
   \<and> reserve_stock fixture_db 1 40 True = (Inr fixture_reservation, reserved_db)
   \<and> list_all batch_ok (release_reservation fixture_reservation reserved_db)
   \<and> list_all batch_ok
        (release_reservation fixture_reservation
           (release_reservation fixture_reservation reserved_db))
   \<and> list_all (\<lambda>b. 0 \<le> reserved_quantity b)
        (release_reservation fixture_reservation
           (release_reservation fixture_reservation reserved_db))
   \<and> list_all (\<lambda>b. qsum fixture_reservation (batch_id b) \<le> reserved_quantity b) reserved_db
   \<and> (\<exists>db'' ms. confirm_sale fixture_reservation 7 ''POS1'' reserved_db = Inr (db'', ms)
         \<and> list_all batch_ok db'')
   \<and> map_option reserved_quantity (get_batch_by_id reserved_db 1) = Some 30
   \<and> map_option reserved_quantity (get_batch_by_id reserved_db 3) = Some 0
   \<and> list_all batch_ok (fst (snd (adjust_stock 1 50 7 reserved_db)))
   \<and> list_all batch_ok (fst (snd (mark_batch_expired 3 7 reserved_db)))"
proof -
  have d0: "distinct (map batch_id fixture_db)" by code_simp
  have k0: "list_all batch_ok fixture_db" by code_simp
  have d1: "distinct (map batch_id reserved_db)" by code_simp
  have k1: "list_all batch_ok reserved_db" by code_simp
  have e: "reserve_stock fixture_db 1 40 True = (Inr fixture_reservation, reserved_db)"
    by code_simp
  have c: "list_all (\<lambda>b. qsum fixture_reservation (batch_id b) \<le> reserved_quantity b) reserved_db"
    by code_simp
  then have c': "\<forall>b \<in> set reserved_db. qsum fixture_reservation (batch_id b) \<le> reserved_quantity b"
    by (simp add: list_all_iff)
  have g1: "get_batch_by_id reserved_db 1 = Some ((fixture_db ! 1)\<lparr>reserved_quantity := 30\<rparr>)"
    by code_simp
  have g3: "get_batch_by_id reserved_db 3 = Some (fixture_db ! 0)" by code_simp
  have r1: "reserved_quantity ((fixture_db ! 1)\<lparr>reserved_quantity := 30\<rparr>) = 30" by simp
  have r3: "reserved_quantity (fixture_db ! 0) = 0" by code_simp
  note A = batch_invariant_preserved[OF d0 k0, of 1 40 True fixture_reservation reserved_db]
  note B = batch_invariant_preserved[OF d1 k1, of _ _ _ _ _ fixture_reservation 7 "''POS1''"]
  from A e have rel: "list_all batch_ok (release_reservation fixture_reservation reserved_db)
     \<and> list_all batch_ok
        (release_reservation fixture_reservation
           (release_reservation fixture_reservation reserved_db))"
    by blast
  from B have nn: "list_all (\<lambda>b. 0 \<le> reserved_quantity b)
        (release_reservation fixture_reservation
           (release_reservation fixture_reservation reserved_db))"
    by blast
  from B c' have cf: "\<exists>db'' ms. confirm_sale fixture_reservation 7 ''POS1'' reserved_db = Inr (db'', ms)
         \<and> list_all batch_ok db''"
    by blast
  from B[of _ _ _ _ _ 1 50] g1 r1
  have adj: "list_all batch_ok (fst (snd (adjust_stock 1 50 7 reserved_db)))" by simp
  from B[of _ _ _ _ _ 3] g3 r3
  have mk: "list_all batch_ok (fst (snd (mark_batch_expired 3 7 reserved_db)))" by simp
  from d0 k0 d1 k1 e c rel nn cf adj mk g1 g3 r3 show ?thesis by simp
qed

text \<open>
  On the fixture batches with 40 units reserved: \<open>adjust_stock\<close> of the 3-day
  batch to 20 units leaves 30 reserved of 20; \<open>mark_batch_expired\<close> leaves 30 reserved
  of 0; confirming the same reservation twice leaves \<open>reserved_quantity\<close> at
  \<open>- 30\<close> and \<open>- 10\<close>.
\<close>

theorem batch_invariant_counterexample:
  "distinct (map batch_id reserved_db) \<and> list_all batch_ok reserved_db
   \<and> \<not> list_all batch_ok (fst (snd (adjust_stock 1 20 7 reserved_db)))
   \<and> map (\<lambda>b. (current_quantity b, reserved_quantity b))
        (fst (snd (adjust_stock 1 20 7 reserved_db))) = [(150, 0), (20, 30), (75, 10)]
   \<and> \<not> list_all batch_ok (fst (snd (mark_batch_expired 1 7 reserved_db)))
   \<and> map (\<lambda>b. (current_quantity b, reserved_quantity b))
        (fst (snd (mark_batch_expired 1 7 reserved_db))) = [(150, 0), (0, 30), (75, 10)]
   \<and> confirm_sale fixture_reservation 7 ''POS1'' reserved_db
       = Inr (confirm_loop fixture_reservation 7 ''POS1'' reserved_db)
   \<and> map reserved_quantity
        (fst (confirm_loop fixture_reservation 7 ''POS1''
           (fst (confirm_loop fixture_reservation 7 ''POS1'' reserved_db))))
       = [0, - 30, - 10]"
  by code_simp

section \<open>Buckets of the expiry summary\<close>

text \<open>
  Claim C8, as amended. Product ids being distinct (the primary key), the bucket of each alert
  level except INFO counts (and sums) exactly the active, in-stock batches of active
  products with \<open>today \<le> expiry_date \<le> today + threshold\<close> of that level, and INFO
  has no bucket; the expired bucket is over exactly such batches with
  \<open>expiry_date < today\<close>. The windows are cumulative when the thresholds are in the
  order their names say (as the defaults 7, 30, 90, 180 are): then the CRITICAL batches
  are among the HIGH ones, these among the MEDIUM ones, these among the LOW ones.
  (\<open>Settings\<close> does not enforce that order, and without it the chain fails: see the
  counterexample.) The expired batches are disjoint from the batches of every window.
\<close>

theorem expiry_summary_buckets:
  assumes "distinct (map p_id products)"
  shows "expiry_breakdown (get_expiry_summary s today db products) CRITICAL
           = Some (batch_bucket (window_batches today products db (expiry_alert_1_week s)))
       \<and> expiry_breakdown (get_expiry_summary s today db products) HIGH
           = Some (batch_bucket (window_batches today products db (expiry_alert_1_month s)))
       \<and> expiry_breakdown (get_expiry_summary s today db products) MEDIUM
           = Some (batch_bucket (window_batches today products db (expiry_alert_3_months s)))
       \<and> expiry_breakdown (get_expiry_summary s today db products) LOW
           = Some (batch_bucket (window_batches today products db (expiry_alert_6_months s)))
       \<and> expiry_breakdown (get_expiry_summary s today db products) INFO = None
       \<and> expired (get_expiry_summary s today db products)
           = batch_bucket (expired_batches today products db)
       \<and> (expiry_alert_1_week s \<le> expiry_alert_1_month s
          \<and> expiry_alert_1_month s \<le> expiry_alert_3_months s
          \<and> expiry_alert_3_months s \<le> expiry_alert_6_months s \<longrightarrow>
            set (window_batches today products db (expiry_alert_1_week s))
              \<subseteq> set (window_batches today products db (expiry_alert_1_month s))
          \<and> set (window_batches today products db (expiry_alert_1_month s))
              \<subseteq> set (window_batches today products db (expiry_alert_3_months s))
          \<and> set (window_batches today products db (expiry_alert_3_months s))
              \<subseteq> set (window_batches today products db (expiry_alert_6_months s)))
       \<and> set (expired_batches today products db) \<inter> set (window_batches today products db m) = {}"
proof -
  note lv = level_rows_batches[OF assms, of today db]
  have b: "expiry_breakdown (get_expiry_summary s today db products) level
        = (case level_max_days s level of None \<Rightarrow> None
           | Some m \<Rightarrow> Some (batch_bucket (window_batches today products db m)))" for level
    by (simp add: get_expiry_summary_def aggregate_batches lv split: option.splits)
  have e: "expired (get_expiry_summary s today db products)
           = batch_bucket (expired_batches today products db)"
    by (simp add: get_expiry_summary_def aggregate_batches expired_rows_batches[OF assms])
  have mono: "set (window_batches today products db m1) \<subseteq> set (window_batches today products db m2)"
    if "m1 \<le> m2" for m1 m2
    using that by (auto simp: window_batches_def)
  have dis: "set (expired_batches today products db) \<inter> set (window_batches today products db m) = {}"
    by (auto simp: window_batches_def expired_batches_def)
  from b[of CRITICAL] b[of HIGH] b[of MEDIUM] b[of LOW] b[of INFO] e mono dis
  show ?thesis by simp
qed

theorem expiry_summary_buckets_witness:
  "distinct (map p_id [test_product])
   \<and> expiry_alert_1_week default_settings \<le> expiry_alert_1_month default_settings
   \<and> expiry_alert_1_month default_settings \<le> expiry_alert_3_months default_settings
   \<and> expiry_alert_3_months default_settings \<le> expiry_alert_6_months default_settings
   \<and> map (\<lambda>l. map_option b_batches
                  (expiry_breakdown (get_expiry_summary default_settings 0 summary_db [test_product]) l))
        [CRITICAL, HIGH, MEDIUM, LOW, INFO] = [Some 1, Some 2, Some 3, Some 4, None]
   \<and> b_batches (expired (get_expiry_summary default_settings 0 summary_db [test_product])) = 1
   \<and> map batch_id (window_batches 0 [test_product] summary_db 7) = [1]
   \<and> map batch_id (window_batches 0 [test_product] summary_db 30) = [1, 2]
   \<and> map batch_id (expired_batches 0 [test_product] summary_db) = [6]
   \<and> set (window_batches 0 [test_product] summary_db 7)
        \<subseteq> set (window_batches 0 [test_product] summary_db 30)
   \<and> set (window_batches 0 [test_product] summary_db 30)
        \<subseteq> set (window_batches 0 [test_product] summary_db 90)
   \<and> set (window_batches 0 [test_product] summary_db 90)
        \<subseteq> set (window_batches 0 [test_product] summary_db 180)"
proof -
  have d: "distinct (map p_id [test_product])" by simp
  have t: "expiry_alert_1_week default_settings = 7" "expiry_alert_1_month default_settings = 30"
    "expiry_alert_3_months default_settings = 90" "expiry_alert_6_months default_settings = 180"
    by (simp_all add: default_settings_def)
  have w: "b_batches (batch_bucket (window_batches 0 [test_product] summary_db 7)) = 1"
    "b_batches (batch_bucket (window_batches 0 [test_product] summary_db 30)) = 2"
    "b_batches (batch_bucket (window_batches 0 [test_product] summary_db 90)) = 3"
    "b_batches (batch_bucket (window_batches 0 [test_product] summary_db 180)) = 4"
    "b_batches (batch_bucket (expired_batches 0 [test_product] summary_db)) = 1"
    by code_simp+
  have i: "map batch_id (window_batches 0 [test_product] summary_db 7) = [1]"
    "map batch_id (window_batches 0 [test_product] summary_db 30) = [1, 2]"
    "map batch_id (expired_batches 0 [test_product] summary_db) = [6]"
    by code_simp+
  from expiry_summary_buckets[OF d, of default_settings 0 summary_db] t w i
  show ?thesis by simp
qed

text \<open>
  With the month threshold at 5 days and the week threshold at 7, a batch expiring in
  6 days is counted in the CRITICAL bucket and not in the HIGH bucket.
\<close>

theorem expiry_summary_threshold_counterexample:
  "\<not> expiry_alert_1_week narrow_settings \<le> expiry_alert_1_month narrow_settings
   \<and> map_option b_batches
        (expiry_breakdown (get_expiry_summary narrow_settings 0 six_day_db [test_product]) CRITICAL)
       = Some 1
   \<and> map_option b_batches
        (expiry_breakdown (get_expiry_summary narrow_settings 0 six_day_db [test_product]) HIGH)
       = Some 0
   \<and> map batch_id (window_batches 0 [test_product] six_day_db (expiry_alert_1_week narrow_settings))
       = [1]
   \<and> window_batches 0 [test_product] six_day_db (expiry_alert_1_month narrow_settings) = []
   \<and> \<not> set (window_batches 0 [test_product] six_day_db (expiry_alert_1_week narrow_settings))
          \<subseteq> set (window_batches 0 [test_product] six_day_db (expiry_alert_1_month narrow_settings))"
  by code_simp

end
